theory Spec2Isabelle
  imports Complex_Main "HOL-Library.Multiset"
begin

section \<open>The productive box: a shallow embedding of \<^verbatim>\<open>src/index.ts\<close>\<close>

text \<open>
  The program is one asynchronous function. It asks the hosting platform who the user is,
  which repositories the user contributed to and when the user committed to each, counts
  the commits by hour of the day, renders four lines of text and writes them between two
  marker comments of a README.

  The embedding follows the source line by line. What the source calls and does not
  define (the query executor, the REST client, the date formatter, the byte codecs, the
  bar chart) is a parameter of the model: a field of the record \<open>world\<close> below, or an
  argument of the function that uses it.
\<close>

subsection \<open>JavaScript values\<close>

text \<open>
  A JavaScript string is a sequence of UTF-16 code units; \<open>length\<close>, \<open>padEnd\<close> and the
  regular expression of the source all count code units.
\<close>

type_synonym jsstring = "nat list"

definition ascii :: "string \<Rightarrow> jsstring" where
  "ascii s = map of_char s"

text \<open>
  A JavaScript number, as far as the source compares it: not-a-number, the two infinities,
  or a finite value. \<open>ge\<close> is \<open>>=\<close> and \<open>lt\<close> is \<open><\<close> against a finite constant; every
  comparison with \<open>NaN\<close> is false.
\<close>

datatype jsnum = NaN | NegInfinity | Num real | PosInfinity

fun ge :: "jsnum \<Rightarrow> real \<Rightarrow> bool" where
  "ge NaN c = False"
| "ge NegInfinity c = False"
| "ge (Num x) c = (x \<ge> c)"
| "ge PosInfinity c = True"

fun lt :: "jsnum \<Rightarrow> real \<Rightarrow> bool" where
  "lt NaN c = False"
| "lt NegInfinity c = True"
| "lt (Num x) c = (x < c)"
| "lt PosInfinity c = False"

datatype error = TypeError

subsection \<open>Counting commits by hour (lines 52 to 71)\<close>

record counters =
  morning :: nat
  daytime :: nat
  evening :: nat
  night :: nat

definition zero_counters :: counters where
  "zero_counters = \<lparr>morning = 0, daytime = 0, evening = 0, night = 0\<rparr>"

text \<open>\<open>const sum = morning + daytime + evening + night\<close> (line 76).\<close>

definition sum_counters :: "counters \<Rightarrow> nat" where
  "sum_counters c = morning c + daytime c + evening c + night c"

text \<open>The four conditions of lines 66 to 69, on the value of \<open>hour\<close>.\<close>

definition is_morning :: "jsnum \<Rightarrow> bool" where
  "is_morning hour = (ge hour 6 \<and> lt hour 11)"

definition is_daytime :: "jsnum \<Rightarrow> bool" where
  "is_daytime hour = (ge hour 11 \<and> lt hour 18)"

definition is_evening :: "jsnum \<Rightarrow> bool" where
  "is_evening hour = (ge hour 18 \<and> lt hour 23)"

definition is_night :: "jsnum \<Rightarrow> bool" where
  "is_night hour = ((ge hour 23 \<and> lt hour 24) \<or> (ge hour 0 \<and> lt hour 6))"

text \<open>
  The body of the inner callback after \<open>hour\<close> is known: four independent \<open>if\<close>
  statements, none of them an \<open>else\<close> branch of another.
\<close>

definition vote :: "jsnum \<Rightarrow> counters \<Rightarrow> counters" where
  "vote hour c0 =
     (let c1 = (if is_morning hour then c0\<lparr>morning := morning c0 + 1\<rparr> else c0);
          c2 = (if is_daytime hour then c1\<lparr>daytime := daytime c1 + 1\<rparr> else c1);
          c3 = (if is_evening hour then c2\<lparr>evening := evening c2 + 1\<rparr> else c2);
          c4 = (if is_night hour then c3\<lparr>night := night c3 + 1\<rparr> else c3)
      in c4)"

text \<open>
  An edge, as far as the callback reads it: the value of \<open>edge?.node?.committedDate\<close>,
  \<open>None\<close> when the edge, its node or the date is null or undefined.

  Lines 60 and 61 turn the date into \<open>hour\<close> with the platform alone:
  \<open>+(new Date(committedDate).toLocaleTimeString('en-US', {hour12: false, timeZone}).split(':')[0])\<close>.
  The model takes that composition as the parameter \<open>localHour\<close>. Two facts about the
  platform matter below. An absent date gives an invalid \<open>Date\<close>, which prints as
  \<open>Invalid Date\<close>, whose first segment converts to \<open>NaN\<close>. And with \<open>hour12: false\<close> in the
  locale \<open>en-US\<close>, engines that resolve the hour cycle to \<open>h24\<close> print the hour after
  midnight as \<open>24\<close>, not \<open>00\<close>.
\<close>

type_synonym 'd edge = "'d option"

text \<open>
  One element of \<open>committedTimeResponseMap\<close>, as far as line 58 reads it.
  \<open>Absent\<close>: the optional chain
  \<open>committedTimeResponse?.data?.repository?.defaultBranchRef?.target?.history\<close> stops at a
  null or undefined link, and the whole call is skipped. \<open>History es\<close>: the chain reaches
  a history object whose \<open>edges\<close> field is \<open>es\<close>. The call \<open>.edges.forEach\<close> has no \<open>?.\<close>
  of its own: on a history without edges it throws a \<open>TypeError\<close>.
\<close>

datatype 'd response = Absent | History "'d edge list option"

definition forEach_edge :: "('d edge \<Rightarrow> jsnum) \<Rightarrow> 'd edge list \<Rightarrow> counters \<Rightarrow> counters" where
  "forEach_edge localHour es c = fold (\<lambda>edge. vote (localHour edge)) es c"

fun aggregate :: "('d edge \<Rightarrow> jsnum) \<Rightarrow> 'd response list \<Rightarrow> counters \<Rightarrow> error + counters" where
  "aggregate localHour [] c = Inr c"
| "aggregate localHour (Absent # rs) c = aggregate localHour rs c"
| "aggregate localHour (History None # rs) c = Inl TypeError"
| "aggregate localHour (History (Some es) # rs) c =
     aggregate localHour rs (forEach_edge localHour es c)"

text \<open>The commit edges the pass visits: those of the results that have a history.\<close>

fun edges_of :: "'d response \<Rightarrow> 'd edge list" where
  "edges_of Absent = []"
| "edges_of (History None) = []"
| "edges_of (History (Some es)) = es"

definition processed_edges :: "'d response list \<Rightarrow> 'd edge list" where
  "processed_edges rs = concat (map edges_of rs)"

text \<open>An hour that one of the four conditions can accept lies in the day: \<open>0 <= hour < 24\<close>.\<close>

definition in_day :: "jsnum \<Rightarrow> bool" where
  "in_day hour = (ge hour 0 \<and> lt hour 24)"

subsection \<open>The title (line 113)\<close>

text \<open>The two literals of line 113, \<open>more active by day\<close> and \<open>more active at night\<close>.\<close>

definition title_day :: jsstring where
  "title_day = [0x42F, 0x20, 0x430, 0x43A, 0x442, 0x438, 0x432, 0x43D, 0x435, 0x435, 0x20,
                0x434, 0x43D, 0x451, 0x43C]"

definition title_night :: jsstring where
  "title_night = [0x42F, 0x20, 0x430, 0x43A, 0x442, 0x438, 0x432, 0x43D, 0x435, 0x435, 0x20,
                  0x43D, 0x43E, 0x447, 0x44C, 0x44E]"

definition title :: "counters \<Rightarrow> jsstring" where
  "title c = (if morning c + daytime c > evening c + night c then title_day else title_night)"

subsection \<open>The four lines of the chart (lines 79 to 96)\<close>

text \<open>\<open>padEnd\<close> and \<open>padStart\<close> with the default filler, a space.\<close>

definition padEnd :: "nat \<Rightarrow> jsstring \<Rightarrow> jsstring" where
  "padEnd n s = s @ replicate (n - length s) 0x20"

definition padStart :: "nat \<Rightarrow> jsstring \<Rightarrow> jsstring" where
  "padStart n s = replicate (n - length s) 0x20 @ s"

text \<open>
  \<open>toString\<close> of a counter: its decimal digits. (A counter is a natural number far below
  \<open>10^21\<close>, where JavaScript would switch to exponent notation.)
\<close>

fun toString :: "nat \<Rightarrow> jsstring" where
  "toString n = (if n < 10 then [0x30 + n] else toString (n div 10) @ [0x30 + n mod 10])"

declare toString.simps [simp del]

text \<open>\<open>Array.prototype.join\<close>.\<close>

fun join :: "jsstring \<Rightarrow> jsstring list \<Rightarrow> jsstring" where
  "join sep [] = []"
| "join sep [x] = x"
| "join sep (x # y # ys) = x @ sep @ join sep (y # ys)"

text \<open>The labels of \<open>oneDay\<close>: an emoji (two code units), a space and a word.\<close>

definition label_morning :: jsstring where
  "label_morning = [0xD83C, 0xDF1E, 0x20, 0x423, 0x442, 0x440, 0x43E]"

definition label_daytime :: jsstring where
  "label_daytime = [0xD83C, 0xDF06, 0x20, 0x414, 0x435, 0x43D, 0x44C]"

definition label_evening :: jsstring where
  "label_evening = [0xD83C, 0xDF03, 0x20, 0x412, 0x435, 0x447, 0x435, 0x440]"

definition label_night :: jsstring where
  "label_night = [0xD83C, 0xDF19, 0x20, 0x41D, 0x43E, 0x447, 0x44C]"

definition oneDay :: "counters \<Rightarrow> (jsstring \<times> nat) list" where
  "oneDay c = [(label_morning, morning c), (label_daytime, daytime c),
               (label_evening, evening c), (label_night, night c)]"

text \<open>The word after the count in each line (line 90), with its leading space.\<close>

definition changes_word :: jsstring where
  "changes_word = [0x20, 0x438, 0x437, 0x43C, 0x435, 0x43D, 0x435, 0x43D, 0x438, 0x439]"

text \<open>
  \<open>cur.commits / sum * 100\<close>. The source computes it in binary floating point; the model
  keeps the exact quotient and hands it to the two functions that read it, both
  parameters. The double the source computes is a function of this quotient, so the
  parameters can stand for what the source calls.
\<close>

definition percent :: "nat \<Rightarrow> nat \<Rightarrow> real" where
  "percent commits all = real commits / real all * 100"

text \<open>
  One line of the chart. \<open>generateBarChart\<close> is the module \<open>./generateBarChart\<close>, which
  is not among the sources; \<open>toFixed\<close> is \<open>Number.prototype.toFixed\<close>.
\<close>

definition line :: "(real \<Rightarrow> nat \<Rightarrow> jsstring) \<Rightarrow> (real \<Rightarrow> nat \<Rightarrow> jsstring) \<Rightarrow> nat \<Rightarrow>
    jsstring \<times> nat \<Rightarrow> jsstring" where
  "line generateBarChart toFixed all cur =
     join [0x20]
       [padEnd 10 (fst cur),
        padEnd 14 (padStart 5 (toString (snd cur)) @ changes_word),
        generateBarChart (percent (snd cur) all) 21,
        padStart 5 (toFixed (percent (snd cur) all) 1) @ [0x25]]"

definition lines :: "(real \<Rightarrow> nat \<Rightarrow> jsstring) \<Rightarrow> (real \<Rightarrow> nat \<Rightarrow> jsstring) \<Rightarrow> counters \<Rightarrow>
    jsstring list" where
  "lines generateBarChart toFixed c =
     map (line generateBarChart toFixed (sum_counters c)) (oneDay c)"

subsection \<open>The section and the replacement (lines 110 to 118)\<close>

definition startComment :: jsstring where
  "startComment = ascii ''<!--START_SECTION:productive-box-in-readme-->''"

definition endComment :: jsstring where
  "endComment = ascii ''<!--END_SECTION:productive-box-in-readme-->''"

definition productiveBoxContent :: "(real \<Rightarrow> nat \<Rightarrow> jsstring) \<Rightarrow> (real \<Rightarrow> nat \<Rightarrow> jsstring) \<Rightarrow>
    counters \<Rightarrow> jsstring" where
  "productiveBoxContent generateBarChart toFixed c =
     ascii ''```text'' @ [0x0A] @ title c @ [0x0A, 0x0A] @
     join [0x0A] (lines generateBarChart toFixed c) @ [0x0A] @ ascii ''```''"

definition sectionContent :: "(real \<Rightarrow> nat \<Rightarrow> jsstring) \<Rightarrow> (real \<Rightarrow> nat \<Rightarrow> jsstring) \<Rightarrow>
    counters \<Rightarrow> jsstring" where
  "sectionContent generateBarChart toFixed c =
     startComment @ [0x0A] @ productiveBoxContent generateBarChart toFixed c @ [0x0A] @
     endComment"

text \<open>
  The regular expression of line 117 is the start marker, \<open>[\d\D]*?\<close> and the end marker.
  Neither marker has a character that is special in a pattern, so each stands for itself;
  \<open>[\d\D]\<close> accepts every code unit, line ends included; \<open>*?\<close> takes as few as it can.
  The three functions below are the matcher for patterns of this shape, with the markers
  \<open>b\<close> and \<open>e\<close> as arguments.

  \<open>starts_with p s\<close>: the literal \<open>p\<close> matches at the head of \<open>s\<close>.
\<close>

definition starts_with :: "'a list \<Rightarrow> 'a list \<Rightarrow> bool" where
  "starts_with p s = (take (length p) s = p)"

text \<open>
  \<open>lazy_then e s\<close>: \<open>[\d\D]*?\<close> followed by \<open>e\<close>, at the head of \<open>s\<close>. The lazy star first
  takes no code unit and lets \<open>e\<close> try; each time \<open>e\<close> fails it takes one more. The result
  is the number of code units the two consume together.
\<close>

fun lazy_then :: "'a list \<Rightarrow> 'a list \<Rightarrow> nat option" where
  "lazy_then e [] = (if starts_with e [] then Some (length e) else None)"
| "lazy_then e (x # s) =
     (if starts_with e (x # s) then Some (length e) else map_option Suc (lazy_then e s))"

text \<open>The whole pattern at the head of \<open>s\<close>: the length of the match.\<close>

definition match_here :: "'a list \<Rightarrow> 'a list \<Rightarrow> 'a list \<Rightarrow> nat option" where
  "match_here b e s =
     (if starts_with b s
      then map_option (\<lambda>n. length b + n) (lazy_then e (drop (length b) s))
      else None)"

text \<open>
  The search of a pattern without the global and sticky flags: the match is tried at
  index 0, then 1, and so on; the first index where it succeeds wins. The result is the
  index and the length of the match.
\<close>

fun exec :: "'a list \<Rightarrow> 'a list \<Rightarrow> 'a list \<Rightarrow> (nat \<times> nat) option" where
  "exec b e [] = map_option (Pair 0) (match_here b e [])"
| "exec b e (x # s) =
     (case match_here b e (x # s) of
        Some n \<Rightarrow> Some (0, n)
      | None \<Rightarrow> map_option (\<lambda>(i, n). (Suc i, n)) (exec b e s))"

text \<open>
  \<open>String.prototype.replace\<close> reads its second argument, when it is a string, as a
  template: \<open>$$\<close> is a dollar sign, \<open>$&\<close> the matched text, \<open>$`\<close> the text before the match
  and \<open>$'\<close> the text after it. The pattern has no group, so \<open>$1\<close>, \<open>$<\<close> and a dollar sign
  before anything else stand for themselves.
\<close>

fun getSubstitution :: "jsstring \<Rightarrow> jsstring \<Rightarrow> jsstring \<Rightarrow> jsstring \<Rightarrow> jsstring" where
  "getSubstitution matched before after [] = []"
| "getSubstitution matched before after [c] = [c]"
| "getSubstitution matched before after (c # d # t) =
     (if c = 0x24 \<and> d = 0x24 then 0x24 # getSubstitution matched before after t
      else if c = 0x24 \<and> d = 0x26 then matched @ getSubstitution matched before after t
      else if c = 0x24 \<and> d = 0x60 then before @ getSubstitution matched before after t
      else if c = 0x24 \<and> d = 0x27 then after @ getSubstitution matched before after t
      else c # getSubstitution matched before after (d # t))"

text \<open>\<open>s.replace(new RegExp(b + '[\\d\\D]*?' + e), template)\<close>: the first match only.\<close>

definition replace :: "jsstring \<Rightarrow> jsstring \<Rightarrow> jsstring \<Rightarrow> jsstring \<Rightarrow> jsstring" where
  "replace b e template s =
     (case exec b e s of
        None \<Rightarrow> s
      | Some (i, n) \<Rightarrow>
          take i s @
          getSubstitution (take n (drop i s)) (take i s) (drop (i + n) s) template @
          drop (i + n) s)"

subsection \<open>The two codecs of \<open>Buffer\<close> (lines 108 and 118)\<close>

text \<open>
  Line 108 is \<open>Buffer.from(content, 'base64').toString('utf8')\<close> and line 118 is
  \<open>Buffer.from(text, 'utf8').toString('base64')\<close>. A byte is a natural number below 256.

  The base64 alphabet, and the encoder: three bytes give four characters, and a last
  group of one or two bytes is filled with \<open>=\<close>.
\<close>

definition base64_char :: "nat \<Rightarrow> nat" where
  "base64_char n =
     (if n < 26 then 0x41 + n
      else if n < 52 then 0x61 + (n - 26)
      else if n < 62 then 0x30 + (n - 52)
      else if n = 62 then 0x2B
      else 0x2F)"

fun base64_encode :: "nat list \<Rightarrow> jsstring" where
  "base64_encode [] = []"
| "base64_encode [a] = [base64_char (a div 4), base64_char (a mod 4 * 16), 0x3D, 0x3D]"
| "base64_encode [a, b] =
     [base64_char (a div 4), base64_char (a mod 4 * 16 + b div 16),
      base64_char (b mod 16 * 4), 0x3D]"
| "base64_encode (a # b # c # bs) =
     [base64_char (a div 4), base64_char (a mod 4 * 16 + b div 16),
      base64_char (b mod 16 * 4 + c div 64), base64_char (c mod 64)] @ base64_encode bs"

text \<open>
  The decoder reads both alphabets (\<open>+\<close> or \<open>-\<close>, \<open>/\<close> or \<open>_\<close>), skips every other character,
  a line end for one, and stops at the first \<open>=\<close>. Four characters give three bytes; two
  or three characters at the end give one or two bytes.
\<close>

definition unbase64 :: "nat \<Rightarrow> nat option" where
  "unbase64 c =
     (if 0x41 \<le> c \<and> c \<le> 0x5A then Some (c - 0x41)
      else if 0x61 \<le> c \<and> c \<le> 0x7A then Some (c - 0x61 + 26)
      else if 0x30 \<le> c \<and> c \<le> 0x39 then Some (c - 0x30 + 52)
      else if c = 0x2B \<or> c = 0x2D then Some 62
      else if c = 0x2F \<or> c = 0x5F then Some 63
      else None)"

definition sextets :: "jsstring \<Rightarrow> nat list" where
  "sextets s = List.map_filter unbase64 (takeWhile (\<lambda>c. c \<noteq> 0x3D) s)"

fun from_sextets :: "nat list \<Rightarrow> nat list" where
  "from_sextets (p # q # r # s # rest) =
     [p * 4 + q div 16, q mod 16 * 16 + r div 4, r mod 4 * 64 + s] @ from_sextets rest"
| "from_sextets [p, q, r] = [p * 4 + q div 16, q mod 16 * 16 + r div 4]"
| "from_sextets [p, q] = [p * 4 + q div 16]"
| "from_sextets [p] = []"
| "from_sextets [] = []"

definition base64_decode :: "jsstring \<Rightarrow> nat list" where
  "base64_decode s = from_sextets (sextets s)"

text \<open>
  UTF-8. A lead byte from \<open>C2\<close> to \<open>DF\<close> has one continuation byte, from \<open>E0\<close> to \<open>EF\<close> two,
  from \<open>F0\<close> to \<open>F4\<close> three. A continuation byte lies between \<open>80\<close> and \<open>BF\<close>; the first one
  after \<open>E0\<close>, \<open>ED\<close>, \<open>F0\<close> and \<open>F4\<close> has a narrower range, which keeps out overlong forms,
  surrogates and code points above \<open>10FFFF\<close>.
\<close>

definition continuation :: "nat \<Rightarrow> bool" where
  "continuation b = (0x80 \<le> b \<and> b \<le> 0xBF)"

definition second_ok :: "nat \<Rightarrow> nat \<Rightarrow> bool" where
  "second_ok lead b =
     ((if lead = 0xE0 then 0xA0 else if lead = 0xF0 then 0x90 else 0x80) \<le> b \<and>
      b \<le> (if lead = 0xED then 0x9F else if lead = 0xF4 then 0x8F else 0xBF))"

text \<open>A code point as code units: itself, or a surrogate pair from \<open>10000\<close> on.\<close>

definition utf16 :: "nat \<Rightarrow> jsstring" where
  "utf16 cp =
     (if cp < 0x10000 then [cp]
      else [0xD800 + (cp - 0x10000) div 0x400, 0xDC00 + (cp - 0x10000) mod 0x400])"

text \<open>
  The decoder of \<open>toString('utf8')\<close>. It does not fail on bytes that are not UTF-8: a byte
  that cannot start a sequence, and a sequence cut short by a byte that cannot continue
  it or by the end, each become the replacement character \<open>U+FFFD\<close>, and the byte that
  cut the sequence short is read again as a start.
\<close>

fun utf8_decode :: "nat list \<Rightarrow> jsstring" where
  "utf8_decode [] = []"
| "utf8_decode (b # bs) =
     (if b < 0x80 then b # utf8_decode bs
      else if 0xC2 \<le> b \<and> b \<le> 0xDF then
        (case bs of
           [] \<Rightarrow> [0xFFFD]
         | b2 # r \<Rightarrow>
             if continuation b2 then ((b - 0xC0) * 0x40 + (b2 - 0x80)) # utf8_decode r
             else 0xFFFD # utf8_decode bs)
      else if 0xE0 \<le> b \<and> b \<le> 0xEF then
        (case bs of
           [] \<Rightarrow> [0xFFFD]
         | b2 # r \<Rightarrow>
             if second_ok b b2 then
               (case r of
                  [] \<Rightarrow> [0xFFFD]
                | b3 # r' \<Rightarrow>
                    if continuation b3
                    then ((b - 0xE0) * 0x1000 + (b2 - 0x80) * 0x40 + (b3 - 0x80)) #
                      utf8_decode r'
                    else 0xFFFD # utf8_decode r)
             else 0xFFFD # utf8_decode bs)
      else if 0xF0 \<le> b \<and> b \<le> 0xF4 then
        (case bs of
           [] \<Rightarrow> [0xFFFD]
         | b2 # r \<Rightarrow>
             if second_ok b b2 then
               (case r of
                  [] \<Rightarrow> [0xFFFD]
                | b3 # r' \<Rightarrow>
                    if continuation b3 then
                      (case r' of
                         [] \<Rightarrow> [0xFFFD]
                       | b4 # r'' \<Rightarrow>
                           if continuation b4
                           then utf16 ((b - 0xF0) * 0x40000 + (b2 - 0x80) * 0x1000 +
                                  (b3 - 0x80) * 0x40 + (b4 - 0x80)) @ utf8_decode r''
                           else 0xFFFD # utf8_decode r')
                    else 0xFFFD # utf8_decode r)
             else 0xFFFD # utf8_decode bs)
      else 0xFFFD # utf8_decode bs)"

text \<open>
  The encoder of \<open>Buffer.from(text, 'utf8')\<close>. A surrogate pair is one code point of four
  bytes; a surrogate without its partner becomes the three bytes of \<open>U+FFFD\<close>.
\<close>

fun utf8_encode :: "jsstring \<Rightarrow> nat list" where
  "utf8_encode [] = []"
| "utf8_encode (u # us) =
     (if u < 0x80 then u # utf8_encode us
      else if u < 0x800 then [0xC0 + u div 0x40, 0x80 + u mod 0x40] @ utf8_encode us
      else if 0xD800 \<le> u \<and> u \<le> 0xDBFF then
        (case us of
           [] \<Rightarrow> [0xEF, 0xBF, 0xBD]
         | l # r \<Rightarrow>
             if 0xDC00 \<le> l \<and> l \<le> 0xDFFF then
               [0xF0 + (0x10000 + (u - 0xD800) * 0x400 + (l - 0xDC00)) div 0x40000,
                0x80 + (0x10000 + (u - 0xD800) * 0x400 + (l - 0xDC00)) div 0x1000 mod 0x40,
                0x80 + (0x10000 + (u - 0xD800) * 0x400 + (l - 0xDC00)) div 0x40 mod 0x40,
                0x80 + (0x10000 + (u - 0xD800) * 0x400 + (l - 0xDC00)) mod 0x40] @
               utf8_encode r
             else [0xEF, 0xBF, 0xBD] @ utf8_encode us)
      else if 0xDC00 \<le> u \<and> u \<le> 0xDFFF then [0xEF, 0xBF, 0xBD] @ utf8_encode us
      else [0xE0 + u div 0x1000, 0x80 + u div 0x40 mod 0x40, 0x80 + u mod 0x40] @
        utf8_encode us)"

text \<open>Well-formed UTF-8, as the Unicode standard defines it (table 3-7).\<close>

fun valid_utf8 :: "nat list \<Rightarrow> bool" where
  "valid_utf8 [] = True"
| "valid_utf8 (b # bs) =
     (if b < 0x80 then valid_utf8 bs
      else if 0xC2 \<le> b \<and> b \<le> 0xDF then
        (case bs of b2 # r \<Rightarrow> continuation b2 \<and> valid_utf8 r | _ \<Rightarrow> False)
      else if 0xE0 \<le> b \<and> b \<le> 0xEF then
        (case bs of
           b2 # b3 # r \<Rightarrow> second_ok b b2 \<and> continuation b3 \<and> valid_utf8 r
         | _ \<Rightarrow> False)
      else if 0xF0 \<le> b \<and> b \<le> 0xF4 then
        (case bs of
           b2 # b3 # b4 # r \<Rightarrow>
             second_ok b b2 \<and> continuation b3 \<and> continuation b4 \<and> valid_utf8 r
         | _ \<Rightarrow> False)
      else False)"

declare utf8_decode.simps(2) [simp del]

declare utf8_encode.simps(2) [simp del]

declare valid_utf8.simps(2) [simp del]

subsection \<open>The run (lines 22 to 128)\<close>

text \<open>
  How an awaited promise settles. The reason of a rejection is only printed, and which of
  several rejections \<open>Promise.all\<close> reports depends on timing; the model leaves the
  reason out.
\<close>

datatype 'a settled = Rejected | Resolved 'a

text \<open>\<open>Promise.all\<close>: rejected as soon as one of the promises is, else all the values in order.\<close>

fun promise_all :: "'a settled list \<Rightarrow> 'a list settled" where
  "promise_all [] = Resolved []"
| "promise_all (Rejected # ps) = Rejected"
| "promise_all (Resolved x # ps) =
     (case promise_all ps of Rejected \<Rightarrow> Rejected | Resolved xs \<Rightarrow> Resolved (x # xs))"

record viewer =
  viewer_login :: jsstring
  viewer_id :: jsstring

record repoInfo =
  name :: jsstring
  isFork :: bool
  owner :: "jsstring option"

record IRepo =
  repo_name :: "jsstring option"
  repo_owner :: "jsstring option"

record readme =
  readme_content :: jsstring
  readme_sha :: jsstring

record write_request =
  req_owner :: "jsstring option"
  req_repo :: "jsstring option"
  req_path :: "jsstring option"
  req_message :: jsstring
  req_content :: jsstring
  req_sha :: jsstring

text \<open>
  Everything the run gets from outside.
  \<^item> \<open>userInfo\<close>: how \<open>githubQuery(userInfoQuery)\<close> settles, and the value of
    \<open>?.data?.viewer\<close> in the response (\<open>None\<close> when a link of the chain is missing).
  \<^item> \<open>contributedRepos username\<close>: how the second query settles, and the value of
    \<open>?.data?.user?.repositoriesContributedTo?.nodes\<close> (\<open>None\<close> when the chain stops or
    \<open>nodes\<close> is missing; a node can be null).
  \<^item> \<open>committedDate id repo\<close>: how the query for one repository settles.
  \<^item> \<open>getReadme\<close>: how the read of the README settles. Its arguments are fixed by the
    environment: \<open>OWNER_REPO\<close> is both the owner and the repository.
  \<^item> \<open>createOrUpdateFile request\<close>: how the write settles.
  \<^item> \<open>env_OWNER_REPO\<close>, \<open>env_PATH\<close>: the values of \<open>process.env.OWNER_REPO\<close> and
    \<open>process.env.PATH\<close>, \<open>None\<close> when the variable is not set.
  \<^item> \<open>localHour\<close>, \<open>generateBarChart\<close>, \<open>toFixed\<close>: see above.
\<close>

record world =
  userInfo :: "viewer option settled"
  contributedRepos :: "jsstring \<Rightarrow> repoInfo option list option settled"
  committedDate :: "jsstring \<Rightarrow> IRepo \<Rightarrow> jsstring response settled"
  getReadme :: "readme settled"
  createOrUpdateFile :: "write_request \<Rightarrow> unit settled"
  env_OWNER_REPO :: "jsstring option"
  env_PATH :: "jsstring option"
  localHour :: "jsstring edge \<Rightarrow> jsnum"
  generateBarChart :: "real \<Rightarrow> nat \<Rightarrow> jsstring"
  toFixed :: "real \<Rightarrow> nat \<Rightarrow> jsstring"

text \<open>What the run does that can be seen from outside, in order.\<close>

datatype message =
    Unable_to_get_username_and_id
  | Unable_to_get_the_contributed_repo
  | Unable_to_get_the_commit_info
  | Unable_to_get_README
  | Unable_to_update_README

datatype event =
    ConsoleError message
  | GenerateBarChart real nat
  | GetReadme
  | CreateOrUpdateFile write_request

text \<open>
  How the promise of the top-level function settles: it returned, or an exception left
  it. Nothing awaits that promise, so an exception is an unhandled rejection.
\<close>

datatype completion = Returned | Threw error

record run =
  events :: "event list"
  completion :: completion

text \<open>An event that is a line of the console.\<close>

definition is_log :: "event \<Rightarrow> bool" where
  "is_log ev = (case ev of ConsoleError m \<Rightarrow> True | _ \<Rightarrow> False)"

text \<open>Lines 36 to 41: the nodes that are not forks, as name and owner.\<close>

definition repos_of :: "repoInfo option list \<Rightarrow> IRepo list" where
  "repos_of nodes =
     map (\<lambda>repoInfo. \<lparr>repo_name = map_option name repoInfo,
                       repo_owner = Option.bind repoInfo owner\<rparr>)
       (filter (\<lambda>repoInfo. \<not> (case repoInfo of None \<Rightarrow> False | Some r \<Rightarrow> isFork r)) nodes)"

text \<open>\<open>(Automated) Update README.md\<close>\<close>

definition commit_message :: jsstring where
  "commit_message = ascii ''(Automated) Update README.md''"

text \<open>Line 108: the text of the README.\<close>

definition readmeContent :: "readme \<Rightarrow> jsstring" where
  "readmeContent r = utf8_decode (base64_decode (readme_content r))"

text \<open>Line 118 and the argument of line 120.\<close>

definition newContent :: "world \<Rightarrow> counters \<Rightarrow> readme \<Rightarrow> jsstring" where
  "newContent W c r =
     base64_encode (utf8_encode
       (replace startComment endComment (sectionContent (generateBarChart W) (toFixed W) c)
          (readmeContent r)))"

definition write_request_of :: "world \<Rightarrow> counters \<Rightarrow> readme \<Rightarrow> write_request" where
  "write_request_of W c r =
     \<lparr>req_owner = env_OWNER_REPO W, req_repo = env_OWNER_REPO W, req_path = env_PATH W,
      req_message = commit_message, req_content = newContent W c r, req_sha = readme_sha r\<rparr>"

text \<open>The calls of \<open>generateBarChart\<close> that the \<open>reduce\<close> of line 86 makes.\<close>

definition chart_events :: "counters \<Rightarrow> event list" where
  "chart_events c = map (\<lambda>cur. GenerateBarChart (percent (snd cur) (sum_counters c)) 21) (oneDay c)"

text \<open>Lines 79 to 127: the chart, the read of the README and the write.\<close>

definition write_readme :: "world \<Rightarrow> counters \<Rightarrow> run" where
  "write_readme W c =
     (case getReadme W of
        Rejected \<Rightarrow>
          \<lparr>events = chart_events c @ [GetReadme, ConsoleError Unable_to_get_README],
           completion = Returned\<rparr>
      | Resolved r \<Rightarrow>
          (case createOrUpdateFile W (write_request_of W c r) of
             Rejected \<Rightarrow>
               \<lparr>events = chart_events c @
                  [GetReadme, CreateOrUpdateFile (write_request_of W c r),
                   ConsoleError Unable_to_update_README],
                completion = Returned\<rparr>
           | Resolved u \<Rightarrow>
               \<lparr>events = chart_events c @
                  [GetReadme, CreateOrUpdateFile (write_request_of W c r)],
                completion = Returned\<rparr>))"

text \<open>
  Lines 46 to 77. A rejected batch is logged and line 50 returns. An exception of the
  counting pass leaves the function. A sum of zero returns at line 77.
\<close>

definition count_commits :: "world \<Rightarrow> viewer \<Rightarrow> IRepo list \<Rightarrow> run" where
  "count_commits W v repos =
     (case promise_all (map (committedDate W (viewer_id v)) repos) of
        Rejected \<Rightarrow>
          \<lparr>events = [ConsoleError Unable_to_get_the_commit_info], completion = Returned\<rparr>
      | Resolved committedTimeResponseMap \<Rightarrow>
          (case aggregate (localHour W) committedTimeResponseMap zero_counters of
             Inl e \<Rightarrow> \<lparr>events = [], completion = Threw e\<rparr>
           | Inr c \<Rightarrow>
               if sum_counters c = 0 then \<lparr>events = [], completion = Returned\<rparr>
               else write_readme W c))"

text \<open>
  Lines 33 to 41. The \<open>catch\<close> of line 35 prints and yields \<open>undefined\<close>; the optional chain
  of line 36 then yields \<open>undefined\<close> for \<open>repos\<close>, and \<open>repos.map\<close> at line 47 throws. The
  same chain on a response without \<open>nodes\<close> throws at line 37.
\<close>

definition contributed_repos :: "world \<Rightarrow> viewer \<Rightarrow> run" where
  "contributed_repos W v =
     (case contributedRepos W (viewer_login v) of
        Rejected \<Rightarrow>
          \<lparr>events = [ConsoleError Unable_to_get_the_contributed_repo],
           completion = Threw TypeError\<rparr>
      | Resolved None \<Rightarrow> \<lparr>events = [], completion = Threw TypeError\<rparr>
      | Resolved (Some nodes) \<Rightarrow> count_commits W v (repos_of nodes))"

text \<open>
  The whole function. Lines 26 to 28: the \<open>catch\<close> of line 27 prints and yields
  \<open>undefined\<close>; line 28 destructures \<open>userResponse?.data?.viewer\<close>, which throws when that
  value is \<open>undefined\<close>.
\<close>

definition main :: "world \<Rightarrow> run" where
  "main W =
     (case userInfo W of
        Rejected \<Rightarrow>
          \<lparr>events = [ConsoleError Unable_to_get_username_and_id], completion = Threw TypeError\<rparr>
      | Resolved None \<Rightarrow> \<lparr>events = [], completion = Threw TypeError\<rparr>
      | Resolved (Some v) \<Rightarrow> contributed_repos W v)"

subsection \<open>The bar chart, from its description\<close>

text \<open>The two glyphs of a bar. Which characters they are is not needed below.\<close>

datatype glyph = FilledGlyph | EmptyGlyph

text \<open>
  Modelled from the spec: the number of filled characters that \<open>generateBarChart\<close> writes.
  The function is the module \<open>./generateBarChart\<close>, which line 10 imports and which is not
  among the sources. The description reads: \<open>round(percent / 100 * W)\<close> filled characters.
  The percent is taken as a real number.
\<close>

definition filled :: "real \<Rightarrow> nat \<Rightarrow> int" where
  "filled p W = round (p / 100 * real W)"

text \<open>
  Modelled from the spec: \<open>generateBarChart\<close>, the same missing module. The description
  reads: given the percent and a bar width \<open>W\<close>, a string of \<open>round(percent / 100 * W)\<close>
  filled characters followed by \<open>W - filled\<close> empty characters, using two fixed glyphs.
\<close>

definition generateBarChart_spec :: "real \<Rightarrow> nat \<Rightarrow> glyph list" where
  "generateBarChart_spec p W =
     replicate (nat (filled p W)) FilledGlyph @ replicate (nat (int W - filled p W)) EmptyGlyph"

text \<open>The number of filled characters in a bar.\<close>

definition filled_count :: "glyph list \<Rightarrow> nat" where
  "filled_count bar = length (filter (\<lambda>g. g = FilledGlyph) bar)"

subsection \<open>Example inputs\<close>

text \<open>
  A commit made half an hour after midnight, and what lines 60 and 61 compute on an engine
  that prints that hour as \<open>24\<close>: \<open>NaN\<close> for an edge without a date, \<open>24\<close> for the dates of
  the examples, which all lie in the hour after midnight.
\<close>

definition midnight_date :: jsstring where
  "midnight_date = ascii ''2020-01-01T00:30:00Z''"

definition h24_clock :: "jsstring edge \<Rightarrow> jsnum" where
  "h24_clock d = (case d of None \<Rightarrow> NaN | Some s \<Rightarrow> Num 24)"

text \<open>The same dates on an engine that prints the hour after midnight as \<open>00\<close>.\<close>

definition h23_clock :: "jsstring edge \<Rightarrow> jsnum" where
  "h23_clock d = (case d of None \<Rightarrow> NaN | Some s \<Rightarrow> Num 0)"

text \<open>The counters after one commit in the hour after midnight, on that engine.\<close>

definition night_only :: counters where
  "night_only = \<lparr>morning = 0, daytime = 0, evening = 0, night = 1\<rparr>"

definition example_viewer :: viewer where
  "example_viewer = \<lparr>viewer_login = ascii ''octocat'', viewer_id = ascii ''U_1''\<rparr>"

text \<open>
  Four READMEs as the read returns them, and a body with two end markers. The first is
  \<open>Hi\<close>, the two markers around \<open>old\<close>, and \<open>Bye\<close>. The second is \<open>Hello <!-- world -->\<close>. The
  third is the Cyrillic letter of the titles, the two bytes \<open>D0 AF\<close>. The fourth is the three
  bytes \<open>48 E9 21\<close>, the text \<open>H\<close>, e with an acute accent and \<open>!\<close> in Latin-1, which is not
  UTF-8.
\<close>

definition example_text :: jsstring where
  "example_text = ascii ''Hi'' @ startComment @ ascii ''old'' @ endComment @ ascii ''Bye''"

definition example_readme :: readme where
  "example_readme =
     \<lparr>readme_content = base64_encode (utf8_encode example_text),
      readme_sha = ascii ''3d21ec5''\<rparr>"

definition plain_readme :: readme where
  "plain_readme =
     \<lparr>readme_content = ascii ''SGVsbG8gPCEtLSB3b3JsZCAtLT4='', readme_sha = ascii ''77aa01b''\<rparr>"

definition cyrillic_readme :: readme where
  "cyrillic_readme = \<lparr>readme_content = ascii ''0K8='', readme_sha = ascii ''c0ffee1''\<rparr>"

definition latin1_readme :: readme where
  "latin1_readme = \<lparr>readme_content = ascii ''SOkh'', readme_sha = ascii ''9e107d9''\<rparr>"

definition two_ends_body :: jsstring where
  "two_ends_body =
     ascii ''Hi'' @ startComment @ ascii ''old'' @ endComment @ ascii ''mid'' @ endComment @
     ascii ''Bye''"

text \<open>
  A world in which every call succeeds: one repository of the user's own and one fork,
  one commit half an hour after midnight. The bar chart and \<open>toFixed\<close> are stand-ins that
  are right for the two percents of the example, 0 and 100.
\<close>

definition example_world :: world where
  "example_world =
     \<lparr>userInfo = Resolved (Some example_viewer),
      contributedRepos = (\<lambda>username. Resolved (Some
        [Some \<lparr>name = ascii ''box'', isFork = False, owner = Some (ascii ''octocat'')\<rparr>,
         Some \<lparr>name = ascii ''fork'', isFork = True, owner = Some (ascii ''octocat'')\<rparr>])),
      committedDate = (\<lambda>id repo. Resolved (History (Some [Some midnight_date]))),
      getReadme = Resolved example_readme,
      createOrUpdateFile = (\<lambda>req. Resolved ()),
      env_OWNER_REPO = Some (ascii ''octocat''),
      env_PATH = Some (ascii ''README.md''),
      localHour = h23_clock,
      generateBarChart = (\<lambda>p W. replicate W (if p = 100 then 0x2588 else 0x2591)),
      toFixed = (\<lambda>p digits. if p = 100 then ascii ''100.0'' else ascii ''0.0'')\<rparr>"

section \<open>Properties\<close>

subsection \<open>The counting pass\<close>

lemma vote_morning: "morning (vote h c) = morning c + of_bool (is_morning h)"
  by (simp add: vote_def Let_def)

lemma vote_daytime: "daytime (vote h c) = daytime c + of_bool (is_daytime h)"
  by (simp add: vote_def Let_def)

lemma vote_evening: "evening (vote h c) = evening c + of_bool (is_evening h)"
  by (simp add: vote_def Let_def)

lemma vote_night: "night (vote h c) = night c + of_bool (is_night h)"
  by (simp add: vote_def Let_def)

lemma vote_more: "counters.more (vote h c) = counters.more c"
  by (simp add: vote_def Let_def)

text \<open>Whatever the number, at most one condition holds, and one does iff \<open>0 <= hour < 24\<close>.\<close>

lemma one_bucket:
  "(of_bool (is_morning h) + of_bool (is_daytime h) + of_bool (is_evening h) +
    of_bool (is_night h) :: nat) = of_bool (in_day h)"
  by (cases h) (auto simp: is_morning_def is_daytime_def is_evening_def is_night_def in_day_def)

lemma sum_vote: "sum_counters (vote h c) = sum_counters c + of_bool (in_day h)"
  unfolding sum_counters_def vote_morning vote_daytime vote_evening vote_night
  using one_bucket [of h] by linarith

lemma forEach_morning:
  "morning (forEach_edge lh es c) = morning c + length (filter (\<lambda>e. is_morning (lh e)) es)"
  unfolding forEach_edge_def by (induction es arbitrary: c) (simp_all add: vote_morning)

lemma forEach_daytime:
  "daytime (forEach_edge lh es c) = daytime c + length (filter (\<lambda>e. is_daytime (lh e)) es)"
  unfolding forEach_edge_def by (induction es arbitrary: c) (simp_all add: vote_daytime)

lemma forEach_evening:
  "evening (forEach_edge lh es c) = evening c + length (filter (\<lambda>e. is_evening (lh e)) es)"
  unfolding forEach_edge_def by (induction es arbitrary: c) (simp_all add: vote_evening)

lemma forEach_night:
  "night (forEach_edge lh es c) = night c + length (filter (\<lambda>e. is_night (lh e)) es)"
  unfolding forEach_edge_def by (induction es arbitrary: c) (simp_all add: vote_night)

lemma forEach_more: "counters.more (forEach_edge lh es c) = counters.more c"
  unfolding forEach_edge_def by (induction es arbitrary: c) (simp_all add: vote_more)


lemma forEach_append:
  "forEach_edge lh (es @ fs) c = forEach_edge lh fs (forEach_edge lh es c)"
  by (simp add: forEach_edge_def)

text \<open>
  The pass as a whole: it throws iff some result has a history without edges, and else
  it is one loop over all the edges it visits.
\<close>

lemma aggregate_eq:
  "aggregate lh rs c =
     (if History None \<in> set rs then Inl TypeError
      else Inr (forEach_edge lh (processed_edges rs) c))"
proof (induction lh rs c rule: aggregate.induct)
  case (1 lh c)
  show ?case by (simp add: processed_edges_def forEach_edge_def)
next
  case (2 lh rs c)
  then show ?case by (simp add: processed_edges_def)
next
  case (3 lh rs c)
  show ?case by simp
next
  case (4 lh es rs c)
  then show ?case by (simp add: processed_edges_def forEach_append)
qed

lemma zero_counters_fields:
  "sum_counters zero_counters = 0" "morning zero_counters = 0" "daytime zero_counters = 0"
  "evening zero_counters = 0" "night zero_counters = 0"
  by (simp_all add: sum_counters_def zero_counters_def)




text \<open>
  C2: for every integer hour from 0 to 23, each condition holds exactly on its half-open
  interval (morning from 6 to 11, daytime from 11 to 18, evening from 18 to 23, night from
  23 on and before 6), exactly one of the four holds, and the callback adds one to the sum
  of the counters. The hours 6, 11, 18, 23 and 0 open their intervals.
\<close>

theorem hour_classification:
  fixes h :: int
  assumes "0 \<le> h" and "h < 24"
  shows "(is_morning (Num (of_int h)) \<longleftrightarrow> 6 \<le> h \<and> h < 11) \<and>
         (is_daytime (Num (of_int h)) \<longleftrightarrow> 11 \<le> h \<and> h < 18) \<and>
         (is_evening (Num (of_int h)) \<longleftrightarrow> 18 \<le> h \<and> h < 23) \<and>
         (is_night (Num (of_int h)) \<longleftrightarrow> 23 \<le> h \<or> h < 6) \<and>
         (of_bool (is_morning (Num (of_int h))) + of_bool (is_daytime (Num (of_int h))) +
          of_bool (is_evening (Num (of_int h))) + of_bool (is_night (Num (of_int h))) =
            (1::nat)) \<and>
         sum_counters (vote (Num (of_int h)) c) = sum_counters c + 1 \<and>
         is_morning (Num 6) \<and> is_daytime (Num 11) \<and> is_evening (Num 18) \<and>
         is_night (Num 23) \<and> is_night (Num 0)"
proof -
  let ?H = "Num (of_int h)"
  have m: "is_morning ?H \<longleftrightarrow> 6 \<le> h \<and> h < 11"
    by (simp add: is_morning_def)
  have d: "is_daytime ?H \<longleftrightarrow> 11 \<le> h \<and> h < 18"
    by (simp add: is_daytime_def)
  have e: "is_evening ?H \<longleftrightarrow> 18 \<le> h \<and> h < 23"
    by (simp add: is_evening_def)
  have n: "is_night ?H \<longleftrightarrow> 23 \<le> h \<or> h < 6"
    using assms by (simp add: is_night_def)
  have day: "in_day ?H"
    using assms by (simp add: in_day_def)
  have one: "of_bool (is_morning ?H) + of_bool (is_daytime ?H) + of_bool (is_evening ?H) +
      of_bool (is_night ?H) = (1::nat)"
    using one_bucket [of ?H] day by simp
  have v: "sum_counters (vote ?H c) = sum_counters c + 1"
    using day by (simp add: sum_vote)
  have b: "is_morning (Num 6) \<and> is_daytime (Num 11) \<and> is_evening (Num 18) \<and>
      is_night (Num 23) \<and> is_night (Num 0)"
    by (simp add: is_morning_def is_daytime_def is_evening_def is_night_def)
  from m d e n one v b show ?thesis by blast
qed

theorem hour_classification_witness:
  "is_night (Num 23) \<and> \<not> is_morning (Num 23) \<and> \<not> is_daytime (Num 23) \<and>
   \<not> is_evening (Num 23) \<and> sum_counters (vote (Num 23) zero_counters) = 1"
  using hour_classification [of 23 zero_counters] by (simp add: zero_counters_fields)

text \<open>The edges visited, and so each count, depend on the results as a multiset only.\<close>

lemma mset_processed_edges:
  assumes "mset rs = mset rs'"
  shows "mset (processed_edges rs) = mset (processed_edges rs')"
proof -
  have "mset (processed_edges xs) = (\<Sum>r\<in>#mset xs. mset (edges_of r))"
    for xs :: "'a response list"
    by (induction xs) (simp_all add: processed_edges_def)
  with assms show ?thesis by simp
qed

lemma count_by_mset: "length (filter P xs) = size (filter_mset P (mset xs))"
  by (metis mset_filter size_mset)

lemma counters_eqI:
  "morning a = morning b \<Longrightarrow> daytime a = daytime b \<Longrightarrow> evening a = evening b \<Longrightarrow>
   night a = night b \<Longrightarrow> counters.more a = counters.more b \<Longrightarrow> a = b"
  by simp

lemma forEach_permuted:
  assumes "mset es = mset fs"
  shows "forEach_edge lh es c = forEach_edge lh fs c"
  by (rule counters_eqI)
    (simp_all add: forEach_morning forEach_daytime forEach_evening forEach_night forEach_more
      count_by_mset assms)

text \<open>
  C8: the pass gives the same result, the same four counters or the same exception,
  for every order of the list of results.
\<close>

theorem aggregate_commutative:
  assumes "mset rs = mset rs'"
  shows "aggregate lh rs c = aggregate lh rs' c"
proof -
  have "set rs = set rs'"
    using assms by (rule mset_eq_setD)
  moreover have
    "forEach_edge lh (processed_edges rs) c = forEach_edge lh (processed_edges rs') c"
    using assms by (intro forEach_permuted mset_processed_edges)
  ultimately show ?thesis
    by (simp add: aggregate_eq)
qed

text \<open>Three results in two orders.\<close>

theorem aggregate_commutative_witness:
  "aggregate (\<lambda>e. case e of None \<Rightarrow> NaN | Some h \<Rightarrow> Num (real h))
     [History (Some [Some 7, Some (23::nat)]), Absent, History (Some [None, Some 12])]
     zero_counters =
   aggregate (\<lambda>e. case e of None \<Rightarrow> NaN | Some h \<Rightarrow> Num (real h))
     [History (Some [None, Some 12]), History (Some [Some 7, Some (23::nat)]), Absent]
     zero_counters"
  by (rule aggregate_commutative) simp

subsection \<open>The title\<close>

text \<open>
  C3, as stated: on a tie the title is the one for the day. This fails: with one commit in
  each bucket the two sums are equal and the title is the one for the night.
\<close>

theorem title_tie_counterexample:
  "morning \<lparr>morning = 1, daytime = 1, evening = 1, night = 1\<rparr> +
     daytime \<lparr>morning = 1, daytime = 1, evening = 1, night = 1\<rparr> =
   evening \<lparr>morning = 1, daytime = 1, evening = 1, night = 1\<rparr> +
     night \<lparr>morning = 1, daytime = 1, evening = 1, night = 1\<rparr> \<and>
   title \<lparr>morning = 1, daytime = 1, evening = 1, night = 1\<rparr> = title_night \<and>
   title \<lparr>morning = 1, daytime = 1, evening = 1, night = 1\<rparr> \<noteq> title_day"
  by (simp add: title_def title_day_def title_night_def)

text \<open>
  C3, amended: the title compares morning plus daytime against evening plus night. It is
  the one for the day when the first sum is strictly greater and the one for the night
  otherwise; on a tie it is the one for the night. The two titles differ.
\<close>

theorem title_selection:
  "(evening c + night c < morning c + daytime c \<longrightarrow> title c = title_day) \<and>
   (morning c + daytime c < evening c + night c \<longrightarrow> title c = title_night) \<and>
   (morning c + daytime c = evening c + night c \<longrightarrow> title c = title_night) \<and>
   title_day \<noteq> title_night"
  by (simp add: title_def title_day_def title_night_def)

theorem title_selection_witness:
  "title \<lparr>morning = 2, daytime = 3, evening = 4, night = 1\<rparr> = title_night \<and>
   title \<lparr>morning = 5, daytime = 5, evening = 3, night = 2\<rparr> = title_day \<and>
   title \<lparr>morning = 1, daytime = 1, evening = 5, night = 5\<rparr> = title_night"
  using title_selection [of "\<lparr>morning = 2, daytime = 3, evening = 4, night = 1\<rparr>"]
    title_selection [of "\<lparr>morning = 5, daytime = 5, evening = 3, night = 2\<rparr>"]
    title_selection [of "\<lparr>morning = 1, daytime = 1, evening = 5, night = 5\<rparr>"]
  by simp

subsection \<open>The lines of the chart\<close>

text \<open>
  Two lines as the example world renders them. The label has seven code units and is
  padded to ten; the count is padded to five and followed by the word; the percent is
  padded to five and followed by the percent sign.
\<close>

lemma replicate_numeral: "replicate (numeral v) x = x # replicate (numeral v - 1) x"
  by (simp add: numeral_eq_Suc)

lemma toString_example: "toString 1204 = ascii ''1204''"
  by (simp add: toString.simps ascii_def)

lemma example_night_line:
  "line (generateBarChart example_world) (toFixed example_world) 1 (label_night, 1) =
     label_night @ ascii ''   '' @ ascii '' '' @ ascii ''    1'' @ changes_word @ ascii '' '' @
     replicate 21 0x2588 @ ascii '' '' @ ascii ''100.0%''"
  by (simp add: line_def percent_def padEnd_def padStart_def toString.simps example_world_def
      label_night_def changes_word_def ascii_def replicate_numeral)

lemma example_morning_line:
  "line (generateBarChart example_world) (toFixed example_world) 1 (label_morning, 0) =
     label_morning @ ascii ''   '' @ ascii '' '' @ ascii ''    0'' @ changes_word @ ascii '' '' @
     replicate 21 0x2591 @ ascii '' '' @ ascii ''  0.0%''"
  by (simp add: line_def percent_def padEnd_def padStart_def toString.simps example_world_def
      label_morning_def changes_word_def ascii_def replicate_numeral)

subsection \<open>The bar chart\<close>

lemma filled_count_spec: "filled_count (generateBarChart_spec p W) = nat (filled p W)"
  by (simp add: filled_count_def generateBarChart_spec_def)

lemma filled_mono: "p1 \<le> p2 \<Longrightarrow> filled p1 W \<le> filled p2 W"
  unfolding filled_def by (intro round_mono mult_right_mono divide_right_mono) simp_all

text \<open>
  C9: at the bar width 21 a greater percent never gives fewer filled characters; for a
  percent that is not negative the number of filled characters is
  \<open>round(percent / 100 * 21)\<close>; and for percents from 0 to 100 the bar has 21 characters.
\<close>

theorem bar_monotonic:
  assumes "p1 < p2"
  shows "filled_count (generateBarChart_spec p1 21) \<le>
           filled_count (generateBarChart_spec p2 21) \<and>
         (0 \<le> p1 \<longrightarrow>
            int (filled_count (generateBarChart_spec p1 21)) = round (p1 / 100 * 21) \<and>
            int (filled_count (generateBarChart_spec p2 21)) = round (p2 / 100 * 21)) \<and>
         (0 \<le> p1 \<and> p2 \<le> 100 \<longrightarrow>
            length (generateBarChart_spec p1 21) = 21 \<and>
            length (generateBarChart_spec p2 21) = 21)"
proof -
  have m: "filled p1 21 \<le> filled p2 21"
    using assms by (intro filled_mono) simp
  have nn: "0 \<le> filled p 21" if "0 \<le> p" for p
  proof -
    have "round (0::real) \<le> round (p / 100 * real 21)"
      using that by (intro round_mono) simp
    then show ?thesis by (simp add: filled_def)
  qed
  have le: "filled p 21 \<le> 21" if "p \<le> 100" for p
  proof -
    have "round (p / 100 * real 21) \<le> round (21::real)"
      using that by (intro round_mono) simp
    then show ?thesis by (simp add: filled_def)
  qed
  have r: "int (filled_count (generateBarChart_spec p 21)) = round (p / 100 * 21)"
    if "0 \<le> p" for p
    using nn [OF that] by (simp add: filled_count_spec) (simp add: filled_def)
  have l: "length (generateBarChart_spec p 21) = 21" if "0 \<le> p" "p \<le> 100" for p
    using nn [OF that(1)] le [OF that(2)] by (simp add: generateBarChart_spec_def)
  have p2: "0 \<le> p2" if "0 \<le> p1"
    using that assms by simp
  have p1: "p1 \<le> 100" if "p2 \<le> 100"
    using that assms by simp
  show ?thesis
    using m r l p1 p2 by (simp add: filled_count_spec)
qed

text \<open>The percents 50 and 52.5: ten and a half filled characters round to 11, and so does 11.025.\<close>

theorem bar_monotonic_witness:
  "filled_count (generateBarChart_spec 50 21) \<le> filled_count (generateBarChart_spec 52.5 21) \<and>
   int (filled_count (generateBarChart_spec 50 21)) = round (50 / 100 * 21 :: real) \<and>
   int (filled_count (generateBarChart_spec 52.5 21)) = round (52.5 / 100 * 21 :: real) \<and>
   length (generateBarChart_spec 50 21) = 21"
  using bar_monotonic [of 50 "52.5"] by simp

subsection \<open>The search and the replacement\<close>

lemma starts_with_iff: "starts_with p s \<longleftrightarrow> (\<exists>r. s = p @ r)"
  unfolding starts_with_def
  by (metis append_eq_conv_conj append_take_drop_id)

lemma starts_with_append [simp]: "starts_with p (p @ r)"
  by (simp add: starts_with_def)

text \<open>The lazy star stops at the first place where the end marker fits.\<close>

lemma lazy_then_first:
  assumes "\<forall>j<length mid. \<not> starts_with e (drop j (mid @ e @ post))"
  shows "lazy_then e (mid @ e @ post) = Some (length mid + length e)"
  using assms
proof (induction mid)
  case Nil
  have "starts_with e (e @ post)" by simp
  then have "lazy_then e (e @ post) = Some (length e)"
    by (cases "e @ post") (simp_all del: starts_with_append)
  then show ?case by simp
next
  case (Cons x mid)
  from Cons.prems have "\<not> starts_with e ((x # mid) @ e @ post)"
    by force
  moreover have "\<forall>j<length mid. \<not> starts_with e (drop j (mid @ e @ post))"
    using Cons.prems by force
  ultimately show ?case using Cons.IH by simp
qed

lemma lazy_then_sound:
  assumes "lazy_then e s = Some n"
  shows "\<exists>mid post. s = mid @ e @ post \<and> n = length mid + length e"
  using assms
proof (induction s arbitrary: n)
  case Nil
  then show ?case by (auto simp: starts_with_def split: if_splits)
next
  case (Cons x s)
  show ?case
  proof (cases "starts_with e (x # s)")
    case True
    then obtain r where "x # s = e @ r" by (auto simp: starts_with_iff)
    moreover from True Cons.prems have "n = length e" by simp
    ultimately have "x # s = [] @ e @ r \<and> n = length [] + length e" by simp
    then show ?thesis by blast
  next
    case False
    with Cons.prems obtain k where k: "lazy_then e s = Some k" "n = Suc k" by auto
    from Cons.IH [OF k(1)] obtain mid post
      where "s = mid @ e @ post" "k = length mid + length e"
      by blast
    then have "x # s = (x # mid) @ e @ post \<and> n = length (x # mid) + length e"
      using k(2) by simp
    then show ?thesis by blast
  qed
qed

text \<open>Among the places where a word occurs in a text there is a first one.\<close>

lemma first_occurrence:
  assumes "s = a @ p @ d"
  shows "\<exists>pre post. s = pre @ p @ post \<and> length pre \<le> length a \<and>
           (\<forall>i<length pre. \<not> starts_with p (drop i s))"
proof -
  have at_a: "starts_with p (drop (length a) s)"
    using assms by simp
  then obtain i where i: "starts_with p (drop i s)" "\<forall>j<i. \<not> starts_with p (drop j s)"
    using exists_least_iff [of "\<lambda>i. starts_with p (drop i s)"] by blast
  have le: "i \<le> length a"
  proof (rule ccontr)
    assume "\<not> i \<le> length a"
    then have "length a < i" by simp
    with i(2) at_a show False by blast
  qed
  from i(1) obtain r where r: "drop i s = p @ r"
    by (auto simp: starts_with_iff)
  have "i \<le> length s"
    using le assms by simp
  then have "s = take i s @ p @ r \<and> length (take i s) = i"
    using r by (metis append_take_drop_id length_take min.absorb2)
  with le i(2) show ?thesis by metis
qed

lemma match_here_first:
  assumes "\<forall>j<length mid. \<not> starts_with e (drop j (mid @ e @ post))"
  shows "match_here b e (b @ mid @ e @ post) = Some (length b + length mid + length e)"
  using lazy_then_first [OF assms] by (simp add: match_here_def)

lemma match_here_sound:
  assumes "match_here b e s = Some n"
  shows "\<exists>mid post. s = b @ mid @ e @ post \<and> n = length b + length mid + length e"
proof -
  from assms have b: "starts_with b s"
    and "\<exists>k. lazy_then e (drop (length b) s) = Some k \<and> n = length b + k"
    by (auto simp: match_here_def split: if_splits)
  then obtain k where k: "lazy_then e (drop (length b) s) = Some k" "n = length b + k"
    by blast
  from lazy_then_sound [OF k(1)] obtain mid post
    where d: "drop (length b) s = mid @ e @ post" "k = length mid + length e"
    by blast
  from b obtain r where "s = b @ r"
    by (auto simp: starts_with_iff)
  with d(1) have "s = b @ mid @ e @ post" by simp
  with d(2) k(2) show ?thesis by auto
qed

lemma match_here_None: "\<not> starts_with b s \<Longrightarrow> match_here b e s = None"
  by (simp add: match_here_def)

lemma exec_first:
  assumes "\<forall>i<length pre. match_here b e (drop i (pre @ rest)) = None"
    and "match_here b e rest = Some n"
  shows "exec b e (pre @ rest) = Some (length pre, n)"
  using assms
proof (induction pre)
  case Nil
  then show ?case by (cases rest) simp_all
next
  case (Cons x pre)
  from Cons.prems(1) have "match_here b e (x # pre @ rest) = None"
    by force
  moreover have "\<forall>i<length pre. match_here b e (drop i (pre @ rest)) = None"
    using Cons.prems(1) by force
  ultimately show ?case using Cons.IH Cons.prems(2) by simp
qed

lemma exec_sound:
  assumes "exec b e s = Some (i, n)"
  shows "\<exists>pre mid post. s = pre @ b @ mid @ e @ post \<and> i = length pre \<and>
           n = length b + length mid + length e"
  using assms
proof (induction s arbitrary: i)
  case Nil
  then have "match_here b e [] = Some n" "i = 0" by auto
  from match_here_sound [OF this(1)] this(2) show ?case by fastforce
next
  case (Cons x s)
  show ?case
  proof (cases "match_here b e (x # s)")
    case (Some k)
    with Cons.prems have "i = 0" "k = n" by auto
    with match_here_sound [OF Some] show ?thesis by fastforce
  next
    case None
    with Cons.prems obtain i' where i': "exec b e s = Some (i', n)" "i = Suc i'"
      by auto
    from Cons.IH [OF i'(1)] obtain pre mid post
      where "s = pre @ b @ mid @ e @ post" "i' = length pre"
        "n = length b + length mid + length e"
      by blast
    then have "x # s = (x # pre) @ b @ mid @ e @ post \<and> i = length (x # pre) \<and>
        n = length b + length mid + length e"
      using i'(2) by simp
    then show ?thesis by blast
  qed
qed

lemma getSubstitution_plain: "0x24 \<notin> set t \<Longrightarrow> getSubstitution m b a t = t"
  by (induction m b a t rule: getSubstitution.induct) auto

text \<open>
  A text that has the start marker and, after it, the end marker: the pattern matches
  from the first start marker to the first end marker that follows it.
\<close>

lemma exec_markers:
  assumes "s = a @ b @ m @ e @ d"
  shows "\<exists>pre mid post. s = pre @ b @ mid @ e @ post \<and>
           (\<forall>i<length pre. \<not> starts_with b (drop i s)) \<and>
           (\<forall>j<length mid. \<not> starts_with e (drop j (mid @ e @ post))) \<and>
           length pre \<le> length a \<and>
           exec b e s = Some (length pre, length b + length mid + length e)"
proof -
  from first_occurrence [OF assms] obtain pre r
    where pre: "s = pre @ b @ r" "length pre \<le> length a"
      "\<forall>i<length pre. \<not> starts_with b (drop i s)"
    by blast
  have "\<exists>x y. r = x @ e @ y"
  proof -
    from pre(1) assms have eq: "pre @ b @ r = a @ b @ m @ e @ d" by simp
    from pre(2) obtain a' where a': "a = pre @ a'"
      using eq by (metis append_eq_append_conv_if append_take_drop_id)
    with eq have "b @ r = a' @ b @ m @ e @ d" by simp
    then have "r = drop (length b) (a' @ b @ m @ e @ d)"
      by (metis append_eq_conv_conj)
    also have "\<dots> = drop (length b) (a' @ b) @ m @ e @ d"
      by simp
    finally have "r = (drop (length b) (a' @ b) @ m) @ e @ d" by simp
    then show ?thesis by blast
  qed
  then obtain x y where "r = x @ e @ y" by blast
  from first_occurrence [OF this] obtain mid post
    where mid: "r = mid @ e @ post" "\<forall>j<length mid. \<not> starts_with e (drop j r)"
    by blast
  have s: "s = pre @ b @ mid @ e @ post"
    using pre(1) mid(1) by simp
  have nearest: "\<forall>j<length mid. \<not> starts_with e (drop j (mid @ e @ post))"
    using mid by simp
  have "\<forall>i<length pre. match_here b e (drop i (pre @ b @ mid @ e @ post)) = None"
    using pre(3) unfolding s by (simp add: match_here_None)
  then have "exec b e (pre @ b @ mid @ e @ post) =
      Some (length pre, length b + length mid + length e)"
    using match_here_first [OF nearest] by (rule exec_first)
  with s pre(2,3) nearest show ?thesis by blast
qed

lemma exec_None_iff: "exec b e s = None \<longleftrightarrow> \<not> (\<exists>a m d. s = a @ b @ m @ e @ d)"
proof
  assume n: "exec b e s = None"
  show "\<not> (\<exists>a m d. s = a @ b @ m @ e @ d)"
  proof
    assume "\<exists>a m d. s = a @ b @ m @ e @ d"
    then obtain a m d where "s = a @ b @ m @ e @ d" by blast
    from exec_markers [OF this] n show False by auto
  qed
next
  assume n: "\<not> (\<exists>a m d. s = a @ b @ m @ e @ d)"
  show "exec b e s = None"
  proof (cases "exec b e s")
    case None
    then show ?thesis .
  next
    case (Some p)
    obtain i k where "p = (i, k)" by (cases p)
    with Some exec_sound [of b e s i k] n show ?thesis by blast
  qed
qed

lemma replace_at_first:
  assumes "s = pre @ b @ mid @ e @ post"
    and "\<forall>i<length pre. \<not> starts_with b (drop i s)"
    and "\<forall>j<length mid. \<not> starts_with e (drop j (mid @ e @ post))"
    and "0x24 \<notin> set t"
  shows "replace b e t s = pre @ t @ post"
proof -
  have "\<forall>i<length pre. match_here b e (drop i (pre @ b @ mid @ e @ post)) = None"
    using assms(2) unfolding assms(1) by (simp add: match_here_None)
  then have "exec b e (pre @ b @ mid @ e @ post) =
      Some (length pre, length b + length mid + length e)"
    using match_here_first [OF assms(3)] by (rule exec_first)
  then show ?thesis
    unfolding replace_def assms(1) using assms(4) by (simp add: getSubstitution_plain)
qed

lemma replace_no_markers:
  assumes "\<not> (\<exists>a m d. s = a @ b @ m @ e @ d)"
  shows "replace b e t s = s"
proof -
  have "exec b e s = None"
    using assms by (simp add: exec_None_iff)
  then show ?thesis by (simp add: replace_def)
qed

text \<open>No dollar sign in the section, when the bar chart and \<open>toFixed\<close> write none.\<close>

lemma set_join: "set (join sep xs) \<subseteq> set sep \<union> \<Union> (set ` set xs)"
  by (induction sep xs rule: join.induct) auto

lemma set_padEnd: "set (padEnd n s) \<subseteq> insert 0x20 (set s)"
  by (auto simp: padEnd_def)

lemma set_padStart: "set (padStart n s) \<subseteq> insert 0x20 (set s)"
  by (auto simp: padStart_def)

lemma set_toString: "set (toString n) \<subseteq> {0x30..0x39}"
proof (induction n rule: toString.induct)
  case (1 n)
  show ?case
  proof (cases "n < 10")
    case True
    then show ?thesis by (simp add: toString.simps [of n])
  next
    case False
    have "n mod 10 < 10" by simp
    then have "0x30 + n mod 10 \<in> {0x30..0x39}" by simp
    with 1 False show ?thesis by (simp add: toString.simps [of n])
  qed
qed

lemma dollar_startComment: "0x24 \<notin> set startComment"
  by (simp add: startComment_def ascii_def)

lemma dollar_endComment: "0x24 \<notin> set endComment"
  by (simp add: endComment_def ascii_def)

lemma dollar_title: "0x24 \<notin> set (title c)"
  by (simp add: title_def title_day_def title_night_def)

lemma dollar_fence: "0x24 \<notin> set (ascii ''```text'')" "0x24 \<notin> set (ascii ''```'')"
  by (simp_all add: ascii_def)

lemma dollar_line:
  assumes "0x24 \<notin> set (g (percent (snd cur) n) 21)"
    and "0x24 \<notin> set (f (percent (snd cur) n) 1)"
    and "0x24 \<notin> set (fst cur)"
  shows "0x24 \<notin> set (line g f n cur)"
proof -
  have 1: "0x24 \<notin> set (padEnd 10 (fst cur))"
    using assms(3) set_padEnd [of 10 "fst cur"] by auto
  have "0x24 \<notin> set (toString (snd cur))"
    using set_toString [of "snd cur"] by auto
  then have "0x24 \<notin> set (padStart 5 (toString (snd cur)))"
    using set_padStart [of 5 "toString (snd cur)"] by auto
  then have "0x24 \<notin> set (padStart 5 (toString (snd cur)) @ changes_word)"
    by (simp add: changes_word_def)
  then have 2: "0x24 \<notin> set (padEnd 14 (padStart 5 (toString (snd cur)) @ changes_word))"
    using set_padEnd [of 14 "padStart 5 (toString (snd cur)) @ changes_word"] by auto
  have 4: "0x24 \<notin> set (padStart 5 (f (percent (snd cur) n) 1) @ [0x25])"
    using assms(2) set_padStart [of 5 "f (percent (snd cur) n) 1"] by auto
  show ?thesis
    unfolding line_def using 1 2 assms(1) 4 by simp
qed

lemma dollar_lines:
  assumes "\<And>p. 0x24 \<notin> set (g p 21)" and "\<And>p. 0x24 \<notin> set (f p 1)"
  shows "0x24 \<notin> set (join [0x0A] (lines g f c))"
proof -
  have "0x24 \<notin> set l" if "l \<in> set (lines g f c)" for l
  proof -
    from that obtain cur
      where cur: "cur \<in> set (oneDay c)" "l = line g f (sum_counters c) cur"
      by (auto simp: lines_def)
    from cur(1) have "0x24 \<notin> set (fst cur)"
      by (auto simp: oneDay_def label_morning_def label_daytime_def label_evening_def
          label_night_def)
    then show ?thesis
      unfolding cur(2) using assms by (intro dollar_line) simp_all
  qed
  then show ?thesis
    using set_join [of "[0x0A]" "lines g f c"] by auto
qed

lemma dollar_sectionContent:
  assumes "\<And>p. 0x24 \<notin> set (g p 21)" and "\<And>p. 0x24 \<notin> set (f p 1)"
  shows "0x24 \<notin> set (sectionContent g f c)"
proof -
  have "0x24 \<notin> set (join [0x0A] (lines g f c))"
    by (intro dollar_lines assms)
  then show ?thesis
    using dollar_startComment dollar_endComment dollar_title [of c] dollar_fence
    by (simp add: sectionContent_def productiveBoxContent_def)
qed

text \<open>
  C5: let the body have the start marker and, somewhere after it, the end marker, and
  let the bar chart and \<open>toFixed\<close> write no dollar sign (\<open>replace\<close> reads one in its second
  argument as the start of a substitution). Then the body splits into a text before the
  first start marker, that marker, the shortest text up to the next end marker, that
  marker, and a rest. For every such split the result is the text before, the section,
  and the rest; the two are untouched. The section is the new box between the same two
  markers.
\<close>

theorem section_replacement:
  assumes "body = a @ startComment @ m @ endComment @ d"
    and "\<forall>p. 0x24 \<notin> set (g p 21)" and "\<forall>p. 0x24 \<notin> set (f p 1)"
  shows "(\<exists>pre mid post. body = pre @ startComment @ mid @ endComment @ post \<and>
            (\<forall>i<length pre. \<not> starts_with startComment (drop i body)) \<and>
            (\<forall>j<length mid. \<not> starts_with endComment (drop j (mid @ endComment @ post)))) \<and>
         (\<forall>pre mid post. body = pre @ startComment @ mid @ endComment @ post \<and>
            (\<forall>i<length pre. \<not> starts_with startComment (drop i body)) \<and>
            (\<forall>j<length mid. \<not> starts_with endComment (drop j (mid @ endComment @ post))) \<longrightarrow>
            replace startComment endComment (sectionContent g f c) body =
              pre @ sectionContent g f c @ post) \<and>
         sectionContent g f c =
           startComment @ [0x0A] @ productiveBoxContent g f c @ [0x0A] @ endComment"
proof -
  have t: "0x24 \<notin> set (sectionContent g f c)"
    using assms(2,3) by (intro dollar_sectionContent) simp_all
  from exec_markers [OF assms(1)] have 1:
    "\<exists>pre mid post. body = pre @ startComment @ mid @ endComment @ post \<and>
       (\<forall>i<length pre. \<not> starts_with startComment (drop i body)) \<and>
       (\<forall>j<length mid. \<not> starts_with endComment (drop j (mid @ endComment @ post)))"
    by blast
  have 2: "replace startComment endComment (sectionContent g f c) body =
      pre @ sectionContent g f c @ post"
    if "body = pre @ startComment @ mid @ endComment @ post"
      "\<forall>i<length pre. \<not> starts_with startComment (drop i body)"
      "\<forall>j<length mid. \<not> starts_with endComment (drop j (mid @ endComment @ post))"
    for pre mid post
    using that t by (rule replace_at_first)
  have 3: "sectionContent g f c =
      startComment @ [0x0A] @ productiveBoxContent g f c @ [0x0A] @ endComment"
    by (simp add: sectionContent_def)
  from 1 2 3 show ?thesis by blast
qed

text \<open>
  A body with one start marker and two end markers: the section takes the place of the
  text up to the first end marker, and the second end marker stays.
\<close>

lemma two_ends_first:
  "\<forall>i<length (ascii ''Hi''). \<not> starts_with startComment (drop i two_ends_body)"
  by (simp add: two_ends_body_def ascii_def startComment_def endComment_def starts_with_def
      less_Suc_eq numeral_2_eq_2)

lemma two_ends_nearest:
  "\<forall>j<length (ascii ''old''). \<not> starts_with endComment
     (drop j (ascii ''old'' @ endComment @ ascii ''mid'' @ endComment @ ascii ''Bye''))"
  by (simp add: ascii_def endComment_def starts_with_def less_Suc_eq numeral_3_eq_3)

theorem section_replacement_witness:
  "replace startComment endComment
     (sectionContent (generateBarChart example_world) (toFixed example_world) night_only)
     two_ends_body =
   ascii ''Hi'' @
   sectionContent (generateBarChart example_world) (toFixed example_world) night_only @
   ascii ''mid'' @ endComment @ ascii ''Bye''"
proof -
  have b: "two_ends_body = ascii ''Hi'' @ startComment @ ascii ''old'' @ endComment @
      (ascii ''mid'' @ endComment @ ascii ''Bye'')"
    by (simp add: two_ends_body_def)
  have g: "\<forall>p. 0x24 \<notin> set (generateBarChart example_world p 21)"
    by (simp add: example_world_def)
  have f: "\<forall>p. 0x24 \<notin> set (toFixed example_world p 1)"
    by (simp add: example_world_def ascii_def)
  from section_replacement [of two_ends_body "ascii ''Hi''" "ascii ''old''"
      "ascii ''mid'' @ endComment @ ascii ''Bye''" "generateBarChart example_world"
      "toFixed example_world" night_only, OF b g f]
    b two_ends_first two_ends_nearest
  show ?thesis by blast
qed

subsection \<open>The two codecs\<close>

text \<open>Digits to the base 64, and the parts of a byte.\<close>

lemma div_c: "z < n \<Longrightarrow> (k * n + z) div n = (k::nat)"
  by simp

lemma mod_c: "z < n \<Longrightarrow> (k * n + z) mod n = (z::nat)"
  by simp

lemma split2:
  assumes "z < 64"
  shows "(x * 64 + z) div 64 = (x::nat)" and "(x * 64 + z) mod 64 = z"
  using assms by (rule div_c, rule mod_c)

lemma split3:
  assumes "y < 64" "z < 64"
  shows "(x * 4096 + y * 64 + z) div 4096 = (x::nat)"
    and "(x * 4096 + y * 64 + z) div 64 mod 64 = y"
    and "(x * 4096 + y * 64 + z) mod 64 = z"
proof -
  have e: "x * 4096 + y * 64 + z = (x * 64 + y) * 64 + z" by simp
  have d: "(x * 4096 + y * 64 + z) div 64 = x * 64 + y"
    unfolding e using assms(2) by (rule div_c)
  show "(x * 4096 + y * 64 + z) div 64 mod 64 = y"
    unfolding d using assms(1) by (rule mod_c)
  show "(x * 4096 + y * 64 + z) mod 64 = z"
    unfolding e using assms(2) by (rule mod_c)
  have "(x * 4096 + y * 64 + z) div 4096 = (x * 4096 + y * 64 + z) div 64 div 64"
    by (simp add: div_mult2_eq)
  also have "\<dots> = x" unfolding d using assms(1) by (rule div_c)
  finally show "(x * 4096 + y * 64 + z) div 4096 = x" .
qed

lemma split4:
  assumes "y < 64" "z < 64" "w < 64"
  shows "(x * 262144 + y * 4096 + z * 64 + w) div 262144 = (x::nat)"
    and "(x * 262144 + y * 4096 + z * 64 + w) div 4096 mod 64 = y"
    and "(x * 262144 + y * 4096 + z * 64 + w) div 64 mod 64 = z"
    and "(x * 262144 + y * 4096 + z * 64 + w) mod 64 = w"
proof -
  let ?n = "x * 262144 + y * 4096 + z * 64 + w"
  have e: "?n = ((x * 64 + y) * 64 + z) * 64 + w" by simp
  have d1: "?n div 64 = (x * 64 + y) * 64 + z"
    unfolding e using assms(3) by (rule div_c)
  have d2: "?n div 4096 = x * 64 + y"
  proof -
    have "?n div 4096 = ?n div 64 div 64" by (simp add: div_mult2_eq)
    also have "\<dots> = x * 64 + y" unfolding d1 using assms(2) by (rule div_c)
    finally show ?thesis .
  qed
  show "?n mod 64 = w" unfolding e using assms(3) by (rule mod_c)
  show "?n div 64 mod 64 = z" unfolding d1 using assms(2) by (rule mod_c)
  show "?n div 4096 mod 64 = y" unfolding d2 using assms(1) by (rule mod_c)
  have "?n div 262144 = ?n div 4096 div 64" by (simp add: div_mult2_eq)
  also have "\<dots> = x" unfolding d2 using assms(1) by (rule div_c)
  finally show "?n div 262144 = x" .
qed


lemma unbase64_char: "n < 64 \<Longrightarrow> unbase64 (base64_char n) = Some n"
  by (auto simp: unbase64_def base64_char_def)

lemma base64_char_not_pad: "base64_char n \<noteq> 0x3D"
  by (auto simp: base64_char_def)

lemma sextets_char: "n < 64 \<Longrightarrow> sextets (base64_char n # s) = n # sextets s"
  by (simp add: sextets_def base64_char_not_pad unbase64_char List.map_filter_simps)

lemma sextets_pad: "sextets (0x3D # s) = []"
  by (simp add: sextets_def List.map_filter_simps)

lemma sextets_Nil: "sextets [] = []"
  by (simp add: sextets_def List.map_filter_simps)

lemma byte_parts:
  fixes b :: nat
  assumes "b < 256"
  shows "b div 4 < 64" and "b div 16 < 16" and "b div 64 < 4"
    and "b mod 4 * 16 < 64" and "b mod 16 * 4 < 64" and "b mod 64 < 64"
proof -
  show "b div 4 < 64" "b div 16 < 16" "b div 64 < 4"
    using assms by (simp_all add: less_mult_imp_div_less)
  have "b mod 4 < 4" "b mod 16 < 16" by simp_all
  then show "b mod 4 * 16 < 64" "b mod 16 * 4 < 64" by linarith+
  show "b mod 64 < 64" by simp
qed

lemma sextet_12: "b < 256 \<Longrightarrow> a mod 4 * 16 + b div 16 < (64::nat)"
proof -
  assume "b < 256"
  then have "b div 16 < 16" by (rule byte_parts)
  moreover have "a mod 4 < 4" by simp
  ultimately show ?thesis by linarith
qed

lemma sextet_23: "c < 256 \<Longrightarrow> b mod 16 * 4 + c div 64 < (64::nat)"
proof -
  assume "c < 256"
  then have "c div 64 < 4" by (rule byte_parts)
  moreover have "b mod 16 < 16" by simp
  ultimately show ?thesis by linarith
qed

lemma byte_1: "b div 16 < 16 \<Longrightarrow> a div 4 * 4 + (a mod 4 * 16 + b div 16) div 16 = (a::nat)"
  by (simp add: div_c)

lemma byte_2:
  "b div 16 < 16 \<Longrightarrow> c div 64 < 4 \<Longrightarrow>
   (a mod 4 * 16 + b div 16) mod 16 * 16 + (b mod 16 * 4 + c div 64) div 4 = (b::nat)"
proof -
  assume b: "b div 16 < 16" and c: "c div 64 < 4"
  have "(a mod 4 * 16 + b div 16) mod 16 = b div 16"
    using b by (rule mod_c)
  moreover have "(b mod 16 * 4 + c div 64) div 4 = b mod 16"
    using c by (rule div_c)
  ultimately show ?thesis by simp
qed

lemma byte_3: "c div 64 < 4 \<Longrightarrow> (b mod 16 * 4 + c div 64) mod 4 * 64 + c mod 64 = (c::nat)"
proof -
  assume "c div 64 < 4"
  then have "(b mod 16 * 4 + c div 64) mod 4 = c div 64" by (rule mod_c)
  then show ?thesis by simp
qed

lemma base64_roundtrip:
  "list_all (\<lambda>b. b < 256) bs \<Longrightarrow> base64_decode (base64_encode bs) = bs"
  unfolding base64_decode_def
proof (induction bs rule: base64_encode.induct)
  case 1
  show ?case by (simp add: sextets_Nil)
next
  case (2 a)
  then have a: "a < 256" by simp
  have "a div 4 * 4 + (a mod 4 * 16 + 0 div 16) div 16 = a"
    by (rule byte_1) simp
  then show ?case
    using byte_parts [OF a] by (simp add: sextets_char sextets_pad)
next
  case (3 a b)
  then have a: "a < 256" and b: "b < 256" by simp_all
  have 1: "a div 4 * 4 + (a mod 4 * 16 + b div 16) div 16 = a"
    using byte_parts(2) [OF b] by (rule byte_1)
  have 2: "(a mod 4 * 16 + b div 16) mod 16 * 16 + (b mod 16 * 4 + 0 div 64) div 4 = b"
    using byte_parts(2) [OF b] by (rule byte_2) simp
  show ?case
    using byte_parts(1) [OF a] sextet_12 [OF b, of a] byte_parts(5) [OF b] 1 2
    by (simp add: sextets_char sextets_pad)
next
  case (4 a b c bs)
  then have a: "a < 256" and b: "b < 256" and c: "c < 256"
    and rest: "from_sextets (sextets (base64_encode bs)) = bs"
    by simp_all
  have 1: "a div 4 * 4 + (a mod 4 * 16 + b div 16) div 16 = a"
    using byte_parts(2) [OF b] by (rule byte_1)
  have 2: "(a mod 4 * 16 + b div 16) mod 16 * 16 + (b mod 16 * 4 + c div 64) div 4 = b"
    using byte_parts(2) [OF b] byte_parts(3) [OF c] by (rule byte_2)
  have 3: "(b mod 16 * 4 + c div 64) mod 4 * 64 + c mod 64 = c"
    using byte_parts(3) [OF c] by (rule byte_3)
  show ?case
    using byte_parts(1) [OF a] sextet_12 [OF b, of a] sextet_23 [OF c, of b]
      byte_parts(6) [OF c] 1 2 3 rest
    by (simp add: sextets_char)
qed

text \<open>The decoder and the encoder of UTF-8 on one well-formed sequence.\<close>

lemma decode_1: "b < 0x80 \<Longrightarrow> utf8_decode (b # bs) = b # utf8_decode bs"
  by (simp add: utf8_decode.simps(2))

lemma decode_2:
  "0xC2 \<le> b \<Longrightarrow> b \<le> 0xDF \<Longrightarrow> continuation b2 \<Longrightarrow>
   utf8_decode (b # b2 # r) = ((b - 0xC0) * 0x40 + (b2 - 0x80)) # utf8_decode r"
  by (simp add: utf8_decode.simps(2) [of b])

lemma decode_3:
  "0xE0 \<le> b \<Longrightarrow> b \<le> 0xEF \<Longrightarrow> second_ok b b2 \<Longrightarrow> continuation b3 \<Longrightarrow>
   utf8_decode (b # b2 # b3 # r) =
     ((b - 0xE0) * 0x1000 + (b2 - 0x80) * 0x40 + (b3 - 0x80)) # utf8_decode r"
  by (simp add: utf8_decode.simps(2) [of b])

lemma decode_4:
  "0xF0 \<le> b \<Longrightarrow> b \<le> 0xF4 \<Longrightarrow> second_ok b b2 \<Longrightarrow> continuation b3 \<Longrightarrow>
   continuation b4 \<Longrightarrow>
   utf8_decode (b # b2 # b3 # b4 # r) =
     utf16 ((b - 0xF0) * 0x40000 + (b2 - 0x80) * 0x1000 + (b3 - 0x80) * 0x40 + (b4 - 0x80)) @
     utf8_decode r"
  by (simp add: utf8_decode.simps(2) [of b])

lemma encode_1: "u < 0x80 \<Longrightarrow> utf8_encode (u # us) = u # utf8_encode us"
  by (simp add: utf8_encode.simps(2))


lemma continuation_offset:
  assumes "continuation b"
  shows "b = 0x80 + (b - 0x80)" and "b - 0x80 < 64"
  using assms by (auto simp: continuation_def)

lemma second_ok_continuation: "second_ok lead b \<Longrightarrow> continuation b"
  by (auto simp: second_ok_def continuation_def split: if_splits)

lemma encode_2:
  assumes "0xC2 \<le> b" "b \<le> 0xDF" "continuation b2"
  shows "utf8_encode (((b - 0xC0) * 0x40 + (b2 - 0x80)) # us) = b # b2 # utf8_encode us"
proof -
  define x where "x = b - 0xC0"
  define z where "z = b2 - 0x80"
  have b: "b = 0xC0 + x" and x: "2 \<le> x" "x \<le> 31"
    using assms(1,2) by (simp_all add: x_def)
  have b2: "b2 = 0x80 + z" and z: "z < 64"
    unfolding z_def using assms(3) by (rule continuation_offset)+
  have lo: "\<not> x * 64 + z < 0x80" using x by simp
  have hi: "x * 64 + z < 0x800" using x z by simp
  have "utf8_encode ((x * 64 + z) # us) =
      [0xC0 + (x * 64 + z) div 64, 0x80 + (x * 64 + z) mod 64] @ utf8_encode us"
    using lo hi by (simp add: utf8_encode.simps(2) [of "x * 64 + z"])
  then have "utf8_encode ((x * 64 + z) # us) = [0xC0 + x, 0x80 + z] @ utf8_encode us"
    by (simp only: split2 [OF z])
  then show ?thesis
    unfolding x_def [symmetric] z_def [symmetric] by (simp add: b b2)
qed

lemma encode_3:
  assumes "0xE0 \<le> b" "b \<le> 0xEF" "second_ok b b2" "continuation b3"
  shows "utf8_encode (((b - 0xE0) * 0x1000 + (b2 - 0x80) * 0x40 + (b3 - 0x80)) # us) =
    b # b2 # b3 # utf8_encode us"
proof -
  define x where "x = b - 0xE0"
  define y where "y = b2 - 0x80"
  define z where "z = b3 - 0x80"
  define n where "n = x * 4096 + y * 64 + z"
  have b: "b = 0xE0 + x" and x: "x \<le> 15"
    using assms(1,2) by (simp_all add: x_def)
  have b2: "b2 = 0x80 + y" and y: "y < 64"
    unfolding y_def using second_ok_continuation [OF assms(3)] by (rule continuation_offset)+
  have b3: "b3 = 0x80 + z" and z: "z < 64"
    unfolding z_def using assms(4) by (rule continuation_offset)+
  have y0: "32 \<le> y" if "x = 0"
    using that assms(3) b by (auto simp: y_def second_ok_def)
  have y13: "y \<le> 31" if "x = 13"
    using that assms(3) b by (auto simp: y_def second_ok_def)
  have lo: "0x800 \<le> n"
  proof (cases "x = 0")
    case True
    with y0 show ?thesis by (simp add: n_def)
  next
    case False
    then have "1 \<le> x" by simp
    then show ?thesis unfolding n_def by linarith
  qed
  have sur: "n < 0xD800 \<or> 0xDFFF < n"
  proof -
    consider "x \<le> 12" | "x = 13" | "14 \<le> x" by linarith
    then show ?thesis
    proof cases
      case 1
      then show ?thesis using y z unfolding n_def by linarith
    next
      case 2
      with y13 have "y \<le> 31" by simp
      with 2 show ?thesis using z unfolding n_def by linarith
    next
      case 3
      then show ?thesis unfolding n_def by linarith
    qed
  qed
  have "utf8_encode (n # us) =
      [0xE0 + n div 0x1000, 0x80 + n div 0x40 mod 0x40, 0x80 + n mod 0x40] @ utf8_encode us"
    using lo sur by (auto simp: utf8_encode.simps(2) [of n])
  then have "utf8_encode (n # us) = [0xE0 + x, 0x80 + y, 0x80 + z] @ utf8_encode us"
    unfolding n_def by (simp only: split3 [OF y z])
  then show ?thesis
    unfolding n_def x_def [symmetric] y_def [symmetric] z_def [symmetric]
    by (simp add: b b2 b3)
qed


lemma encode_4:
  assumes "0xF0 \<le> b" "b \<le> 0xF4" "second_ok b b2" "continuation b3" "continuation b4"
  shows "utf8_encode
      (utf16 ((b - 0xF0) * 0x40000 + (b2 - 0x80) * 0x1000 + (b3 - 0x80) * 0x40 + (b4 - 0x80)) @
       us) =
    b # b2 # b3 # b4 # utf8_encode us"
proof -
  define x where "x = b - 0xF0"
  define y where "y = b2 - 0x80"
  define z where "z = b3 - 0x80"
  define w where "w = b4 - 0x80"
  define n where "n = x * 262144 + y * 4096 + z * 64 + w"
  define k where "k = n - 0x10000"
  have b: "b = 0xF0 + x" and x: "x \<le> 4"
    using assms(1,2) by (simp_all add: x_def)
  have b2: "b2 = 0x80 + y" and y: "y < 64"
    unfolding y_def using second_ok_continuation [OF assms(3)] by (rule continuation_offset)+
  have b3: "b3 = 0x80 + z" and z: "z < 64"
    unfolding z_def using assms(4) by (rule continuation_offset)+
  have b4: "b4 = 0x80 + w" and w: "w < 64"
    unfolding w_def using assms(5) by (rule continuation_offset)+
  have y0: "16 \<le> y" if "x = 0"
    using that assms(3) b by (auto simp: y_def second_ok_def)
  have y4: "y \<le> 15" if "x = 4"
    using that assms(3) b by (auto simp: y_def second_ok_def)
  have lo: "0x10000 \<le> n"
  proof (cases "x = 0")
    case True
    with y0 show ?thesis by (simp add: n_def)
  next
    case False
    then have "1 \<le> x" by simp
    then show ?thesis unfolding n_def by linarith
  qed
  have hi: "n \<le> 0x10FFFF"
  proof (cases "x = 4")
    case True
    with y4 have "y \<le> 15" by simp
    with True show ?thesis using z w unfolding n_def by linarith
  next
    case False
    with x have "x \<le> 3" by simp
    then show ?thesis using y z w unfolding n_def by linarith
  qed
  have n: "n = 0x10000 + k" and k: "k < 0x100000"
    using lo hi by (simp_all add: k_def)
  have kd: "k div 0x400 < 0x400"
    using k by (simp add: less_mult_imp_div_less)
  have km: "k mod 0x400 < 0x400"
    by simp
  have u: "utf16 n = [0xD800 + k div 0x400, 0xDC00 + k mod 0x400]"
    using lo by (simp add: utf16_def k_def)
  have joined: "0x10000 + (0xD800 + k div 0x400 - 0xD800) * 0x400 +
      (0xDC00 + k mod 0x400 - 0xDC00) = n"
    by (simp add: n)
  have c1: "\<not> 0xD800 + k div 0x400 < 0x80" "\<not> 0xD800 + k div 0x400 < 0x800"
    "0xD800 \<le> 0xD800 + k div 0x400" "0xD800 + k div 0x400 \<le> 0xDBFF"
    "0xDC00 \<le> 0xDC00 + k mod 0x400" "0xDC00 + k mod 0x400 \<le> 0xDFFF"
    using kd km by simp_all
  have "utf8_encode ((0xD800 + k div 0x400) # (0xDC00 + k mod 0x400) # us) =
      [0xF0 + n div 0x40000, 0x80 + n div 0x1000 mod 0x40, 0x80 + n div 0x40 mod 0x40,
       0x80 + n mod 0x40] @ utf8_encode us"
    unfolding utf8_encode.simps(2) [of "0xD800 + k div 0x400"] joined [symmetric]
    using c1 by simp
  then have "utf8_encode (utf16 n @ us) =
      [0xF0 + n div 0x40000, 0x80 + n div 0x1000 mod 0x40, 0x80 + n div 0x40 mod 0x40,
       0x80 + n mod 0x40] @ utf8_encode us"
    by (simp only: u append_Cons append_Nil)
  then have "utf8_encode (utf16 n @ us) =
      [0xF0 + x, 0x80 + y, 0x80 + z, 0x80 + w] @ utf8_encode us"
    unfolding n_def by (simp only: split4 [OF y z w])
  then show ?thesis
    unfolding n_def x_def [symmetric] y_def [symmetric] z_def [symmetric] w_def [symmetric]
    by (simp add: b b2 b3 b4)
qed


lemma valid_1: "b < 0x80 \<Longrightarrow> valid_utf8 (b # bs) = valid_utf8 bs"
  by (simp add: valid_utf8.simps(2))

lemma valid_2:
  assumes "valid_utf8 (b # bs)" "0xC2 \<le> b" "b \<le> 0xDF"
  obtains b2 r where "bs = b2 # r" "continuation b2" "valid_utf8 r"
  using assms by (auto simp: valid_utf8.simps(2) [of b] split: list.splits if_splits)

lemma valid_3:
  assumes "valid_utf8 (b # bs)" "0xE0 \<le> b" "b \<le> 0xEF"
  obtains b2 b3 r where "bs = b2 # b3 # r" "second_ok b b2" "continuation b3" "valid_utf8 r"
  using assms by (auto simp: valid_utf8.simps(2) [of b] split: list.splits if_splits)

lemma valid_4:
  assumes "valid_utf8 (b # bs)" "0xF0 \<le> b" "b \<le> 0xF4"
  obtains b2 b3 b4 r where "bs = b2 # b3 # b4 # r" "second_ok b b2" "continuation b3"
    "continuation b4" "valid_utf8 r"
  using assms by (auto simp: valid_utf8.simps(2) [of b] split: list.splits if_splits)

lemma valid_lead:
  assumes "valid_utf8 (b # bs)"
  shows "b < 0x80 \<or> (0xC2 \<le> b \<and> b \<le> 0xDF) \<or> (0xE0 \<le> b \<and> b \<le> 0xEF) \<or>
    (0xF0 \<le> b \<and> b \<le> 0xF4)"
  using assms by (auto simp: valid_utf8.simps(2) [of b] split: if_splits)

lemma utf8_roundtrip: "valid_utf8 bs \<Longrightarrow> utf8_encode (utf8_decode bs) = bs"
proof (induction bs rule: length_induct)
  case (1 xs)
  show ?case
  proof (cases xs)
    case Nil
    then show ?thesis by simp
  next
    case (Cons b bs)
    from "1.prems" have v: "valid_utf8 (b # bs)" unfolding Cons .
    from valid_lead [OF v] consider "b < 0x80" | "0xC2 \<le> b \<and> b \<le> 0xDF"
      | "0xE0 \<le> b \<and> b \<le> 0xEF" | "0xF0 \<le> b \<and> b \<le> 0xF4"
      by blast
    then show ?thesis
    proof cases
      case 1
      with v have "valid_utf8 bs" by (simp add: valid_1)
      with "1.IH" Cons have "utf8_encode (utf8_decode bs) = bs" by simp
      with 1 show ?thesis unfolding Cons by (simp add: decode_1 encode_1)
    next
      case 2
      with v obtain b2 r where bs: "bs = b2 # r" and c: "continuation b2" and r: "valid_utf8 r"
        by (auto elim: valid_2)
      from "1.IH" r have "utf8_encode (utf8_decode r) = r" by (simp add: Cons bs)
      with 2 c show ?thesis unfolding Cons bs by (simp add: decode_2 encode_2)
    next
      case 3
      with v obtain b2 b3 r where bs: "bs = b2 # b3 # r" and c: "second_ok b b2" "continuation b3"
        and r: "valid_utf8 r"
        by (auto elim: valid_3)
      from "1.IH" r have "utf8_encode (utf8_decode r) = r" by (simp add: Cons bs)
      with 3 c show ?thesis unfolding Cons bs by (simp add: decode_3 encode_3)
    next
      case 4
      with v obtain b2 b3 b4 r where bs: "bs = b2 # b3 # b4 # r"
        and c: "second_ok b b2" "continuation b3" "continuation b4" and r: "valid_utf8 r"
        by (auto elim: valid_4)
      from "1.IH" r have "utf8_encode (utf8_decode r) = r" by (simp add: Cons bs)
      with 4 c show ?thesis unfolding Cons bs by (simp add: decode_4 encode_4)
    qed
  qed
qed

lemma valid_bytes: "valid_utf8 bs \<Longrightarrow> list_all (\<lambda>b. b < 256) bs"
proof (induction bs rule: length_induct)
  case (1 xs)
  show ?case
  proof (cases xs)
    case Nil
    then show ?thesis by simp
  next
    case (Cons b bs)
    from "1.prems" have v: "valid_utf8 (b # bs)" unfolding Cons .
    from valid_lead [OF v] consider "b < 0x80" | "0xC2 \<le> b \<and> b \<le> 0xDF"
      | "0xE0 \<le> b \<and> b \<le> 0xEF" | "0xF0 \<le> b \<and> b \<le> 0xF4"
      by blast
    then show ?thesis
    proof cases
      case 1
      with v have "valid_utf8 bs" by (simp add: valid_1)
      with "1.IH" Cons have "list_all (\<lambda>b. b < 256) bs" by simp
      with 1 show ?thesis unfolding Cons by simp
    next
      case 2
      with v obtain b2 r where bs: "bs = b2 # r" and c: "continuation b2" and r: "valid_utf8 r"
        by (auto elim: valid_2)
      from "1.IH" r have "list_all (\<lambda>b. b < 256) r" by (simp add: Cons bs)
      with 2 c show ?thesis unfolding Cons bs by (simp add: continuation_def)
    next
      case 3
      with v obtain b2 b3 r where bs: "bs = b2 # b3 # r" and c: "second_ok b b2" "continuation b3"
        and r: "valid_utf8 r"
        by (auto elim: valid_3)
      from "1.IH" r have "list_all (\<lambda>b. b < 256) r" by (simp add: Cons bs)
      with 3 c(2) second_ok_continuation [OF c(1)] show ?thesis
        unfolding Cons bs by (simp add: continuation_def)
    next
      case 4
      with v obtain b2 b3 b4 r where bs: "bs = b2 # b3 # b4 # r"
        and c: "second_ok b b2" "continuation b3" "continuation b4" and r: "valid_utf8 r"
        by (auto elim: valid_4)
      from "1.IH" r have "list_all (\<lambda>b. b < 256) r" by (simp add: Cons bs)
      with 4 c(2,3) second_ok_continuation [OF c(1)] show ?thesis
        unfolding Cons bs by (simp add: continuation_def)
    qed
  qed
qed

text \<open>Text in ASCII is its own encoding.\<close>

lemma utf8_encode_ascii: "list_all (\<lambda>u. u < 0x80) s \<Longrightarrow> utf8_encode s = s"
  by (induction s) (simp_all add: encode_1)

lemma utf8_decode_ascii: "list_all (\<lambda>b. b < 0x80) bs \<Longrightarrow> utf8_decode bs = bs"
  by (induction bs) (simp_all add: decode_1)

lemma ascii_bytes:
  "list_all (\<lambda>b. b < 0x80) bs \<Longrightarrow> list_all (\<lambda>b. b < (256::nat)) bs"
  by (induction bs) auto

lemma example_text_ascii: "list_all (\<lambda>u. u < 0x80) example_text"
  by (simp add: example_text_def startComment_def endComment_def ascii_def)

lemma example_readmeContent: "readmeContent example_readme = example_text"
  using example_text_ascii
  by (simp add: readmeContent_def example_readme_def utf8_encode_ascii utf8_decode_ascii
      base64_roundtrip ascii_bytes)

subsection \<open>The run\<close>

text \<open>The example world, stage by stage.\<close>

lemma example_repos:
  "repos_of
     [Some \<lparr>name = ascii ''box'', isFork = False, owner = Some (ascii ''octocat'')\<rparr>,
      Some \<lparr>name = ascii ''fork'', isFork = True, owner = Some (ascii ''octocat'')\<rparr>] =
   [\<lparr>repo_name = Some (ascii ''box''), repo_owner = Some (ascii ''octocat'')\<rparr>]"
  by (simp add: repos_of_def)

lemma example_aggregate_h23:
  "aggregate h23_clock [History (Some [Some midnight_date])] zero_counters = Inr night_only"
  by (simp add: forEach_edge_def vote_def h23_clock_def is_morning_def is_daytime_def
      is_evening_def is_night_def zero_counters_def night_only_def)

lemma example_aggregate_h24:
  "aggregate h24_clock [History (Some [Some midnight_date])] zero_counters = Inr zero_counters"
  by (simp add: forEach_edge_def vote_def h24_clock_def is_morning_def is_daytime_def
      is_evening_def is_night_def zero_counters_def)

lemma main_example:
  "main (example_world\<lparr>getReadme := Resolved r\<rparr>) =
     \<lparr>events = chart_events night_only @
        [GetReadme,
         CreateOrUpdateFile
           (write_request_of (example_world\<lparr>getReadme := Resolved r\<rparr>) night_only r)],
      completion = Returned\<rparr>"
proof -
  have s: "sum_counters night_only \<noteq> 0"
    by (simp add: sum_counters_def night_only_def)
  show ?thesis
    using s
    by (simp add: main_def contributed_repos_def count_commits_def write_readme_def
        example_world_def example_viewer_def repos_of_def example_aggregate_h23
        del: aggregate.simps)
qed

text \<open>
  C4: the claim holds for three of the five operations and fails for the first two. When
  the identity lookup is rejected, or the repository list is, the \<open>catch\<close> prints the
  message, and the function then goes on with \<open>undefined\<close> and throws a \<open>TypeError\<close>: it
  does not return, and nothing handles the exception.
\<close>

theorem early_failures_throw:
  "main (W\<lparr>userInfo := Rejected\<rparr>) =
     \<lparr>events = [ConsoleError Unable_to_get_username_and_id], completion = Threw TypeError\<rparr> \<and>
   main (W\<lparr>userInfo := Resolved (Some v), contributedRepos := (\<lambda>username. Rejected)\<rparr>) =
     \<lparr>events = [ConsoleError Unable_to_get_the_contributed_repo],
      completion = Threw TypeError\<rparr>"
  by (simp add: main_def contributed_repos_def)

text \<open>
  The three later operations do what the claim says: a rejected batch, a rejected read
  and a rejected write are each printed, and the function returns.
\<close>

lemma late_failures_return:
  assumes "userInfo W = Resolved (Some v)"
    and "contributedRepos W (viewer_login v) = Resolved (Some nodes)"
  shows "promise_all (map (committedDate W (viewer_id v)) (repos_of nodes)) = Rejected \<Longrightarrow>
           main W =
             \<lparr>events = [ConsoleError Unable_to_get_the_commit_info], completion = Returned\<rparr>"
    and "promise_all (map (committedDate W (viewer_id v)) (repos_of nodes)) = Resolved rs \<Longrightarrow>
         aggregate (localHour W) rs zero_counters = Inr c \<Longrightarrow> sum_counters c \<noteq> 0 \<Longrightarrow>
         getReadme W = Rejected \<Longrightarrow>
           main W =
             \<lparr>events = chart_events c @ [GetReadme, ConsoleError Unable_to_get_README],
              completion = Returned\<rparr>"
    and "promise_all (map (committedDate W (viewer_id v)) (repos_of nodes)) = Resolved rs \<Longrightarrow>
         aggregate (localHour W) rs zero_counters = Inr c \<Longrightarrow> sum_counters c \<noteq> 0 \<Longrightarrow>
         getReadme W = Resolved r \<Longrightarrow>
         createOrUpdateFile W (write_request_of W c r) = Rejected \<Longrightarrow>
           main W =
             \<lparr>events = chart_events c @
                [GetReadme, CreateOrUpdateFile (write_request_of W c r),
                 ConsoleError Unable_to_update_README],
              completion = Returned\<rparr>"
  using assms
  by (simp_all add: main_def contributed_repos_def count_commits_def write_readme_def)

text \<open>
  C6: when the run reaches the end of the counting pass and all four counters are zero,
  it returns with no event at all: no call of the bar chart, no read and no write of the
  README.
\<close>

theorem zero_activity:
  assumes "userInfo W = Resolved (Some v)"
    and "contributedRepos W (viewer_login v) = Resolved (Some nodes)"
    and "promise_all (map (committedDate W (viewer_id v)) (repos_of nodes)) = Resolved rs"
    and "aggregate (localHour W) rs zero_counters = Inr c"
    and "morning c = 0" and "daytime c = 0" and "evening c = 0" and "night c = 0"
  shows "main W = \<lparr>events = [], completion = Returned\<rparr>"
  using assms
  by (simp add: main_def contributed_repos_def count_commits_def sum_counters_def)

text \<open>
  The example world on an engine that prints the hour of its one commit as \<open>24\<close>: the
  commit is counted nowhere, and the run returns with no event.
\<close>

theorem zero_activity_witness:
  "main (example_world\<lparr>localHour := h24_clock\<rparr>) = \<lparr>events = [], completion = Returned\<rparr>"
proof (rule zero_activity)
  show "userInfo (example_world\<lparr>localHour := h24_clock\<rparr>) = Resolved (Some example_viewer)"
    by (simp add: example_world_def)
  show "contributedRepos (example_world\<lparr>localHour := h24_clock\<rparr>)
      (viewer_login example_viewer) =
    Resolved (Some
      [Some \<lparr>name = ascii ''box'', isFork = False, owner = Some (ascii ''octocat'')\<rparr>,
       Some \<lparr>name = ascii ''fork'', isFork = True, owner = Some (ascii ''octocat'')\<rparr>])"
    by (simp add: example_world_def)
  show "promise_all
      (map (committedDate (example_world\<lparr>localHour := h24_clock\<rparr>) (viewer_id example_viewer))
        (repos_of
          [Some \<lparr>name = ascii ''box'', isFork = False, owner = Some (ascii ''octocat'')\<rparr>,
           Some \<lparr>name = ascii ''fork'', isFork = True, owner = Some (ascii ''octocat'')\<rparr>])) =
    Resolved [History (Some [Some midnight_date])]"
    unfolding example_repos by (simp add: example_world_def)
  show "aggregate (localHour (example_world\<lparr>localHour := h24_clock\<rparr>))
      [History (Some [Some midnight_date])] zero_counters = Inr zero_counters"
    using example_aggregate_h24 by simp
qed (simp_all add: zero_counters_def)

text \<open>A write event, traced back through the run.\<close>

lemma write_event_origin:
  assumes "CreateOrUpdateFile req \<in> set (events (main W))"
  shows "\<exists>v nodes rs c r rest.
           userInfo W = Resolved (Some v) \<and>
           contributedRepos W (viewer_login v) = Resolved (Some nodes) \<and>
           promise_all (map (committedDate W (viewer_id v)) (repos_of nodes)) = Resolved rs \<and>
           aggregate (localHour W) rs zero_counters = Inr c \<and>
           sum_counters c \<noteq> 0 \<and>
           getReadme W = Resolved r \<and>
           req = write_request_of W c r \<and>
           events (main W) = chart_events c @ GetReadme # CreateOrUpdateFile req # rest \<and>
           list_all is_log rest"
  using assms
  by (auto simp: main_def contributed_repos_def count_commits_def write_readme_def
      chart_events_def is_log_def
      split: settled.splits option.splits sum.splits if_splits)

text \<open>The content of the write, by whether the text read has the two markers.\<close>

lemma newContent_markers:
  assumes "readmeContent r = pre @ startComment @ mid @ endComment @ post"
    and "\<forall>i<length pre. \<not> starts_with startComment (drop i (readmeContent r))"
    and "\<forall>j<length mid. \<not> starts_with endComment (drop j (mid @ endComment @ post))"
    and "\<forall>p. 0x24 \<notin> set (generateBarChart W p 21)"
    and "\<forall>p. 0x24 \<notin> set (toFixed W p 1)"
  shows "newContent W c r =
    base64_encode (utf8_encode
      (pre @ sectionContent (generateBarChart W) (toFixed W) c @ post))"
proof -
  have t: "0x24 \<notin> set (sectionContent (generateBarChart W) (toFixed W) c)"
    using assms(4,5) by (intro dollar_sectionContent) simp_all
  have "replace startComment endComment (sectionContent (generateBarChart W) (toFixed W) c)
      (readmeContent r) = pre @ sectionContent (generateBarChart W) (toFixed W) c @ post"
    using assms(1-3) t by (rule replace_at_first)
  then show ?thesis by (simp add: newContent_def)
qed

lemma newContent_no_markers:
  assumes "\<not> (\<exists>a m d. readmeContent r = a @ startComment @ m @ endComment @ d)"
  shows "newContent W c r = base64_encode (utf8_encode (readmeContent r))"
  using replace_no_markers [OF assms] by (simp add: newContent_def)

lemma plain_readmeContent: "readmeContent plain_readme = ascii ''Hello <!-- world -->''"
  by (simp add: readmeContent_def plain_readme_def base64_decode_def sextets_def
      List.map_filter_simps unbase64_def ascii_def decode_1)

lemma plain_no_match:
  "exec startComment endComment (ascii ''Hello <!-- world -->'') = None"
  by (simp add: ascii_def startComment_def endComment_def starts_with_def match_here_def)

lemma plain_encoded:
  "base64_encode (utf8_encode (ascii ''Hello <!-- world -->'')) =
     ascii ''SGVsbG8gPCEtLSB3b3JsZCAtLT4=''"
  by (simp add: ascii_def encode_1 base64_char_def)

text \<open>
  C7, as stated: a document that is written is fully updated with a freshly rendered
  section. This fails. The README of the example has no marker; the run calls the write
  all the same, and the content written is the content read: the document is rewritten
  with no section in it.
\<close>

theorem write_without_section_counterexample:
  "CreateOrUpdateFile
     (write_request_of (example_world\<lparr>getReadme := Resolved plain_readme\<rparr>) night_only
        plain_readme)
     \<in> set (events (main (example_world\<lparr>getReadme := Resolved plain_readme\<rparr>))) \<and>
   req_content
     (write_request_of (example_world\<lparr>getReadme := Resolved plain_readme\<rparr>) night_only
        plain_readme) = readme_content plain_readme \<and>
   readmeContent plain_readme = ascii ''Hello <!-- world -->'' \<and>
   exec startComment endComment (readmeContent plain_readme) = None"
proof -
  have n: "\<not> (\<exists>a m d. readmeContent plain_readme = a @ startComment @ m @ endComment @ d)"
    unfolding plain_readmeContent using plain_no_match by (simp add: exec_None_iff)
  have "newContent (example_world\<lparr>getReadme := Resolved plain_readme\<rparr>) night_only
      plain_readme = readme_content plain_readme"
    unfolding newContent_no_markers [OF n] plain_readmeContent plain_encoded
    by (simp add: plain_readme_def)
  then show ?thesis
    using plain_no_match
    by (simp add: main_example write_request_of_def plain_readmeContent)
qed

text \<open>
  C7, amended: if the run calls the write at all, then the identity lookup, the
  repository list, the batch of histories and the read of the README all succeeded and
  the counters are not all zero; the write carries the \<open>sha\<close> of that read; the read comes
  right before the write; the write is called once, and only console lines follow it.
  Its content is the encoding of the whole text read after the replacement. When the
  text has the start marker and, after it, the end marker, it splits at the first start
  marker and the nearest end marker after it, and for every such split the content is the
  text before, the freshly rendered section and the text after (the bar chart and
  \<open>toFixed\<close> writing no dollar sign). When the text has no such pair, the content is the
  text read, with no section in it.
\<close>

theorem write_only_after_success:
  assumes "CreateOrUpdateFile req \<in> set (events (main W))"
  shows "\<exists>v nodes rs c r rest.
           userInfo W = Resolved (Some v) \<and>
           contributedRepos W (viewer_login v) = Resolved (Some nodes) \<and>
           promise_all (map (committedDate W (viewer_id v)) (repos_of nodes)) = Resolved rs \<and>
           aggregate (localHour W) rs zero_counters = Inr c \<and>
           sum_counters c \<noteq> 0 \<and>
           getReadme W = Resolved r \<and>
           req_sha req = readme_sha r \<and>
           req_content req =
             base64_encode (utf8_encode (replace startComment endComment
               (sectionContent (generateBarChart W) (toFixed W) c) (readmeContent r))) \<and>
           events (main W) = chart_events c @ GetReadme # CreateOrUpdateFile req # rest \<and>
           list_all is_log rest \<and>
           ((\<exists>a m d. readmeContent r = a @ startComment @ m @ endComment @ d) \<longrightarrow>
            (\<exists>pre mid post. readmeContent r = pre @ startComment @ mid @ endComment @ post \<and>
               (\<forall>i<length pre. \<not> starts_with startComment (drop i (readmeContent r))) \<and>
               (\<forall>j<length mid.
                  \<not> starts_with endComment (drop j (mid @ endComment @ post))))) \<and>
           (\<forall>pre mid post. readmeContent r = pre @ startComment @ mid @ endComment @ post \<and>
              (\<forall>i<length pre. \<not> starts_with startComment (drop i (readmeContent r))) \<and>
              (\<forall>j<length mid. \<not> starts_with endComment (drop j (mid @ endComment @ post))) \<and>
              (\<forall>p. 0x24 \<notin> set (generateBarChart W p 21)) \<and>
              (\<forall>p. 0x24 \<notin> set (toFixed W p 1)) \<longrightarrow>
              req_content req =
                base64_encode (utf8_encode
                  (pre @ sectionContent (generateBarChart W) (toFixed W) c @ post))) \<and>
           (\<not> (\<exists>a m d. readmeContent r = a @ startComment @ m @ endComment @ d) \<longrightarrow>
            req_content req = base64_encode (utf8_encode (readmeContent r)))"
proof -
  from write_event_origin [OF assms] obtain v nodes rs c r rest
    where 1: "userInfo W = Resolved (Some v)"
      and 2: "contributedRepos W (viewer_login v) = Resolved (Some nodes)"
      and 3: "promise_all (map (committedDate W (viewer_id v)) (repos_of nodes)) = Resolved rs"
      and 4: "aggregate (localHour W) rs zero_counters = Inr c"
      and 5: "sum_counters c \<noteq> 0"
      and 6: "getReadme W = Resolved r"
      and q: "req = write_request_of W c r"
      and 9: "events (main W) = chart_events c @ GetReadme # CreateOrUpdateFile req # rest"
      and 10: "list_all is_log rest"
    by blast
  have 7: "req_sha req = readme_sha r"
    by (simp add: q write_request_of_def)
  have con: "req_content req = newContent W c r"
    by (simp add: q write_request_of_def)
  have 8: "req_content req =
      base64_encode (utf8_encode (replace startComment endComment
        (sectionContent (generateBarChart W) (toFixed W) c) (readmeContent r)))"
    by (simp add: con newContent_def)
  have 11: "(\<exists>a m d. readmeContent r = a @ startComment @ m @ endComment @ d) \<longrightarrow>
      (\<exists>pre mid post. readmeContent r = pre @ startComment @ mid @ endComment @ post \<and>
         (\<forall>i<length pre. \<not> starts_with startComment (drop i (readmeContent r))) \<and>
         (\<forall>j<length mid. \<not> starts_with endComment (drop j (mid @ endComment @ post))))"
  proof
    assume "\<exists>a m d. readmeContent r = a @ startComment @ m @ endComment @ d"
    then obtain a m d where "readmeContent r = a @ startComment @ m @ endComment @ d"
      by blast
    from exec_markers [OF this]
    show "\<exists>pre mid post. readmeContent r = pre @ startComment @ mid @ endComment @ post \<and>
        (\<forall>i<length pre. \<not> starts_with startComment (drop i (readmeContent r))) \<and>
        (\<forall>j<length mid. \<not> starts_with endComment (drop j (mid @ endComment @ post)))"
      by blast
  qed
  have 12: "\<forall>pre mid post. readmeContent r = pre @ startComment @ mid @ endComment @ post \<and>
      (\<forall>i<length pre. \<not> starts_with startComment (drop i (readmeContent r))) \<and>
      (\<forall>j<length mid. \<not> starts_with endComment (drop j (mid @ endComment @ post))) \<and>
      (\<forall>p. 0x24 \<notin> set (generateBarChart W p 21)) \<and>
      (\<forall>p. 0x24 \<notin> set (toFixed W p 1)) \<longrightarrow>
      req_content req =
        base64_encode (utf8_encode
          (pre @ sectionContent (generateBarChart W) (toFixed W) c @ post))"
    unfolding con by (intro allI impI, elim conjE, rule newContent_markers)
  have 13: "\<not> (\<exists>a m d. readmeContent r = a @ startComment @ m @ endComment @ d) \<longrightarrow>
      req_content req = base64_encode (utf8_encode (readmeContent r))"
    unfolding con by (intro impI, rule newContent_no_markers)
  show ?thesis
    apply (rule exI [of _ v], rule exI [of _ nodes], rule exI [of _ rs], rule exI [of _ c],
        rule exI [of _ r], rule exI [of _ rest])
    apply (intro conjI)
    apply (fact 1, fact 2, fact 3, fact 4, fact 5, fact 6, fact 7, fact 8, fact 9, fact 10,
        fact 11, fact 12, fact 13)
    done
qed

text \<open>
  The example world, whose README has the two markers: the content written is \<open>Hi\<close>, the
  section and \<open>Bye\<close>, encoded.
\<close>

lemma example_first:
  "\<forall>i<length (ascii ''Hi''). \<not> starts_with startComment (drop i example_text)"
  by (simp add: example_text_def ascii_def startComment_def endComment_def starts_with_def
      less_Suc_eq numeral_2_eq_2)

lemma example_nearest:
  "\<forall>j<length (ascii ''old''). \<not> starts_with endComment
     (drop j (ascii ''old'' @ endComment @ ascii ''Bye''))"
  by (simp add: ascii_def endComment_def starts_with_def less_Suc_eq numeral_3_eq_3)

theorem write_only_after_success_witness:
  "CreateOrUpdateFile
     (write_request_of (example_world\<lparr>getReadme := Resolved example_readme\<rparr>) night_only
        example_readme)
     \<in> set (events (main (example_world\<lparr>getReadme := Resolved example_readme\<rparr>))) \<and>
   req_sha
     (write_request_of (example_world\<lparr>getReadme := Resolved example_readme\<rparr>) night_only
        example_readme) = ascii ''3d21ec5'' \<and>
   req_content
     (write_request_of (example_world\<lparr>getReadme := Resolved example_readme\<rparr>) night_only
        example_readme) =
     base64_encode (utf8_encode
       (ascii ''Hi'' @
        sectionContent (generateBarChart example_world) (toFixed example_world) night_only @
        ascii ''Bye''))"
proof -
  let ?W = "example_world\<lparr>getReadme := Resolved example_readme\<rparr>"
  let ?req = "write_request_of ?W night_only example_readme"
  have p: "CreateOrUpdateFile ?req \<in> set (events (main ?W))"
    by (simp add: main_example)
  from write_only_after_success [OF p] obtain v nodes rs c r
    where 1: "userInfo ?W = Resolved (Some v)"
      and 2: "contributedRepos ?W (viewer_login v) = Resolved (Some nodes)"
      and 3: "promise_all (map (committedDate ?W (viewer_id v)) (repos_of nodes)) = Resolved rs"
      and 4: "aggregate (localHour ?W) rs zero_counters = Inr c"
      and 6: "getReadme ?W = Resolved r"
      and 7: "req_sha ?req = readme_sha r"
      and 12: "\<forall>pre mid post. readmeContent r = pre @ startComment @ mid @ endComment @ post \<and>
        (\<forall>i<length pre. \<not> starts_with startComment (drop i (readmeContent r))) \<and>
        (\<forall>j<length mid. \<not> starts_with endComment (drop j (mid @ endComment @ post))) \<and>
        (\<forall>p. 0x24 \<notin> set (generateBarChart ?W p 21)) \<and>
        (\<forall>p. 0x24 \<notin> set (toFixed ?W p 1)) \<longrightarrow>
        req_content ?req =
          base64_encode (utf8_encode
            (pre @ sectionContent (generateBarChart ?W) (toFixed ?W) c @ post))"
    by blast
  from 1 have v: "v = example_viewer"
    by (simp add: example_world_def)
  from 2 have nodes: "repos_of nodes =
      [\<lparr>repo_name = Some (ascii ''box''), repo_owner = Some (ascii ''octocat'')\<rparr>]"
    using example_repos by (auto simp: example_world_def)
  from 3 have rs: "rs = [History (Some [Some midnight_date])]"
    unfolding nodes by (simp add: example_world_def)
  from 4 have c: "c = night_only"
    unfolding rs using example_aggregate_h23 by (simp add: example_world_def)
  from 6 have r: "r = example_readme"
    by simp
  have g: "\<forall>p. 0x24 \<notin> set (generateBarChart ?W p 21)"
    by (simp add: example_world_def)
  have f: "\<forall>p. 0x24 \<notin> set (toFixed ?W p 1)"
    by (simp add: example_world_def ascii_def)
  have b: "readmeContent example_readme =
      ascii ''Hi'' @ startComment @ ascii ''old'' @ endComment @ ascii ''Bye''"
    by (simp add: example_readmeContent example_text_def)
  have first: "\<forall>i<length (ascii ''Hi'').
      \<not> starts_with startComment (drop i (readmeContent example_readme))"
    using example_first by (simp add: example_readmeContent)
  from 12 [unfolded r c] b first example_nearest g f
  have "req_content ?req =
      base64_encode (utf8_encode
        (ascii ''Hi'' @ sectionContent (generateBarChart ?W) (toFixed ?W) night_only @
         ascii ''Bye''))"
    by blast
  moreover have "req_sha ?req = ascii ''3d21ec5''"
    using 7 by (simp add: r example_readme_def)
  ultimately show ?thesis
    using p by simp
qed

text \<open>
  C10, as stated: the content written is, after base64 decoding, byte for byte the
  content read. This fails when the content read is not UTF-8. The README of the example
  is the three bytes \<open>48 E9 21\<close>; it has no marker; the decoder of line 108 reads the byte
  \<open>E9\<close> as the replacement character, and line 118 writes that character back as the
  three bytes \<open>EF BF BD\<close>.
\<close>

lemma latin1_readmeContent: "readmeContent latin1_readme = [0x48, 0xFFFD, 0x21]"
  by (simp add: readmeContent_def latin1_readme_def base64_decode_def sextets_def
      List.map_filter_simps unbase64_def ascii_def utf8_decode.simps(2) second_ok_def)

lemma latin1_no_match: "exec startComment endComment [0x48, 0xFFFD, 0x21] = None"
  by (simp add: ascii_def startComment_def endComment_def starts_with_def match_here_def)

theorem unmarked_readme_counterexample:
  "base64_decode (readme_content latin1_readme) = [0x48, 0xE9, 0x21] \<and>
   exec startComment endComment (readmeContent latin1_readme) = None \<and>
   CreateOrUpdateFile
     (write_request_of (example_world\<lparr>getReadme := Resolved latin1_readme\<rparr>) night_only
        latin1_readme)
     \<in> set (events (main (example_world\<lparr>getReadme := Resolved latin1_readme\<rparr>))) \<and>
   req_content
     (write_request_of (example_world\<lparr>getReadme := Resolved latin1_readme\<rparr>) night_only
        latin1_readme) = ascii ''SO+/vSE='' \<and>
   base64_decode
     (req_content
       (write_request_of (example_world\<lparr>getReadme := Resolved latin1_readme\<rparr>) night_only
          latin1_readme)) = [0x48, 0xEF, 0xBF, 0xBD, 0x21]"
proof -
  let ?W = "example_world\<lparr>getReadme := Resolved latin1_readme\<rparr>"
  have 1: "base64_decode (readme_content latin1_readme) = [0x48, 0xE9, 0x21]"
    by (simp add: latin1_readme_def base64_decode_def sextets_def List.map_filter_simps
        unbase64_def ascii_def)
  have 2: "exec startComment endComment (readmeContent latin1_readme) = None"
    unfolding latin1_readmeContent by (rule latin1_no_match)
  have n: "\<not> (\<exists>a m d. readmeContent latin1_readme = a @ startComment @ m @ endComment @ d)"
    using 2 by (simp add: exec_None_iff)
  have 3: "CreateOrUpdateFile (write_request_of ?W night_only latin1_readme)
      \<in> set (events (main ?W))"
    by (simp add: main_example)
  have e: "utf8_encode [0x48, 0xFFFD, 0x21] = [0x48, 0xEF, 0xBF, 0xBD, 0x21]"
    by (simp add: utf8_encode.simps(2))
  have 4: "req_content (write_request_of ?W night_only latin1_readme) = ascii ''SO+/vSE=''"
    unfolding write_request_of_def newContent_no_markers [OF n] latin1_readmeContent e
    by (simp add: base64_char_def ascii_def)
  have 5: "base64_decode (ascii ''SO+/vSE='') = [0x48, 0xEF, 0xBF, 0xBD, 0x21]"
    by (simp add: base64_decode_def sextets_def List.map_filter_simps unbase64_def ascii_def)
  from 1 2 3 4 5 show ?thesis by simp
qed

text \<open>
  C10, amended: let the run reach the read of the README, and let the text read have no
  start marker followed by an end marker. Then the replacement leaves the text as it is,
  and the run still calls the write, with the \<open>sha\<close> just read and with the encoding of
  that same text as content: no marker is added and the write is not skipped. When the
  content read is well-formed UTF-8, the content written is, after base64 decoding, byte
  for byte the content read.
\<close>

theorem unmarked_readme_rewritten:
  assumes "userInfo W = Resolved (Some v)"
    and "contributedRepos W (viewer_login v) = Resolved (Some nodes)"
    and "promise_all (map (committedDate W (viewer_id v)) (repos_of nodes)) = Resolved rs"
    and "aggregate (localHour W) rs zero_counters = Inr c"
    and "sum_counters c \<noteq> 0"
    and "getReadme W = Resolved r"
    and "\<not> (\<exists>a m d. readmeContent r = a @ startComment @ m @ endComment @ d)"
  shows "replace startComment endComment (sectionContent (generateBarChart W) (toFixed W) c)
           (readmeContent r) = readmeContent r \<and>
         (\<exists>rest. events (main W) =
            chart_events c @ GetReadme # CreateOrUpdateFile (write_request_of W c r) # rest \<and>
            list_all is_log rest) \<and>
         req_content (write_request_of W c r) =
           base64_encode (utf8_encode (readmeContent r)) \<and>
         req_sha (write_request_of W c r) = readme_sha r \<and>
         (valid_utf8 (base64_decode (readme_content r)) \<longrightarrow>
            base64_decode (req_content (write_request_of W c r)) =
              base64_decode (readme_content r))"
proof -
  have same: "replace startComment endComment
      (sectionContent (generateBarChart W) (toFixed W) c) (readmeContent r) = readmeContent r"
    using assms(7) by (rule replace_no_markers)
  have ev: "\<exists>rest. events (main W) =
      chart_events c @ GetReadme # CreateOrUpdateFile (write_request_of W c r) # rest \<and>
      list_all is_log rest"
    using assms(1-6)
    by (cases "createOrUpdateFile W (write_request_of W c r)")
      (simp_all add: main_def contributed_repos_def count_commits_def write_readme_def
        is_log_def)
  have content: "req_content (write_request_of W c r) =
      base64_encode (utf8_encode (readmeContent r))"
    by (simp add: write_request_of_def newContent_no_markers [OF assms(7)])
  have sha: "req_sha (write_request_of W c r) = readme_sha r"
    by (simp add: write_request_of_def)
  have bytes: "base64_decode (req_content (write_request_of W c r)) =
      base64_decode (readme_content r)"
    if v: "valid_utf8 (base64_decode (readme_content r))"
  proof -
    have "utf8_encode (readmeContent r) = base64_decode (readme_content r)"
      unfolding readmeContent_def using v by (rule utf8_roundtrip)
    moreover have "list_all (\<lambda>b. b < 256) (base64_decode (readme_content r))"
      using v by (rule valid_bytes)
    ultimately show ?thesis
      unfolding content by (simp add: base64_roundtrip)
  qed
  from same ev content sha bytes show ?thesis by blast
qed

text \<open>
  The example world with a README that is one Cyrillic letter, the two bytes \<open>D0 AF\<close>: it
  is written back as it was read.
\<close>

lemma cyrillic_bytes: "base64_decode (readme_content cyrillic_readme) = [0xD0, 0xAF]"
  by (simp add: cyrillic_readme_def base64_decode_def sextets_def List.map_filter_simps
      unbase64_def ascii_def)

lemma cyrillic_no_match: "exec startComment endComment [0x42F] = None"
  by (simp add: ascii_def startComment_def endComment_def starts_with_def match_here_def)

theorem unmarked_readme_rewritten_witness:
  "readmeContent cyrillic_readme = [0x42F] \<and>
   events (main (example_world\<lparr>getReadme := Resolved cyrillic_readme\<rparr>)) =
     chart_events night_only @
     [GetReadme,
      CreateOrUpdateFile
        (write_request_of (example_world\<lparr>getReadme := Resolved cyrillic_readme\<rparr>) night_only
           cyrillic_readme)] \<and>
   req_sha
     (write_request_of (example_world\<lparr>getReadme := Resolved cyrillic_readme\<rparr>) night_only
        cyrillic_readme) = ascii ''c0ffee1'' \<and>
   base64_decode
     (req_content
       (write_request_of (example_world\<lparr>getReadme := Resolved cyrillic_readme\<rparr>) night_only
          cyrillic_readme)) = [0xD0, 0xAF]"
proof -
  let ?W = "example_world\<lparr>getReadme := Resolved cyrillic_readme\<rparr>"
  have 1: "userInfo ?W = Resolved (Some example_viewer)"
    by (simp add: example_world_def)
  have 2: "contributedRepos ?W (viewer_login example_viewer) =
    Resolved (Some
      [Some \<lparr>name = ascii ''box'', isFork = False, owner = Some (ascii ''octocat'')\<rparr>,
       Some \<lparr>name = ascii ''fork'', isFork = True, owner = Some (ascii ''octocat'')\<rparr>])"
    by (simp add: example_world_def)
  have 3: "promise_all (map (committedDate ?W (viewer_id example_viewer))
        (repos_of
          [Some \<lparr>name = ascii ''box'', isFork = False, owner = Some (ascii ''octocat'')\<rparr>,
           Some \<lparr>name = ascii ''fork'', isFork = True, owner = Some (ascii ''octocat'')\<rparr>])) =
    Resolved [History (Some [Some midnight_date])]"
    unfolding example_repos by (simp add: example_world_def)
  have 4: "aggregate (localHour ?W) [History (Some [Some midnight_date])] zero_counters =
      Inr night_only"
    using example_aggregate_h23 by (simp add: example_world_def)
  have 5: "sum_counters night_only \<noteq> 0"
    by (simp add: sum_counters_def night_only_def)
  have 6: "getReadme ?W = Resolved cyrillic_readme"
    by simp
  have body: "readmeContent cyrillic_readme = [0x42F]"
    unfolding readmeContent_def cyrillic_bytes
    by (simp add: utf8_decode.simps(2) continuation_def)
  have 7: "\<not> (\<exists>a m d. readmeContent cyrillic_readme =
      a @ startComment @ m @ endComment @ d)"
    unfolding body using cyrillic_no_match exec_None_iff by blast
  have valid: "valid_utf8 (base64_decode (readme_content cyrillic_readme))"
    unfolding cyrillic_bytes by (simp add: valid_utf8.simps(2) continuation_def)
  note u = unmarked_readme_rewritten [OF 1 2 3 4 5 6 7]
  have b: "base64_decode (req_content (write_request_of ?W night_only
      cyrillic_readme)) = [0xD0, 0xAF]"
    using u valid unfolding cyrillic_bytes by blast
  from u have s: "req_sha (write_request_of ?W night_only cyrillic_readme) = ascii ''c0ffee1''"
    by (simp add: cyrillic_readme_def)
  have e: "events (main ?W) = chart_events night_only @
     [GetReadme, CreateOrUpdateFile (write_request_of ?W night_only cyrillic_readme)]"
    by (simp add: main_example)
  from body e s b show ?thesis by simp
qed

end
